theory Spec2Isabelle
  imports Main
begin

section \<open>JavaScript string primitives used by the two analysis flows\<close>

text \<open>
  A JavaScript string is a sequence of UTF-16 code units. The model uses \<^typ>\<open>string\<close>
  (a list of \<^typ>\<open>char\<close>), so a character is a code unit in the range U+0000 .. U+00FF;
  \<^term>\<open>of_char c :: nat\<close> is its code. Texts with other characters are outside the model.
\<close>

text \<open>
  \<open>\w\<close> of a regular expression without the \<open>u\<close> flag: the class \<open>[A-Za-z0-9_]\<close>. It is what
  the assertion \<open>\b\<close> consults, also under the \<open>i\<close> flag.
\<close>

definition isWordChar :: "char \<Rightarrow> bool" where
  "isWordChar c =
     (let n = (of_char c :: nat) in
      (48 \<le> n \<and> n \<le> 57) \<or> (65 \<le> n \<and> n \<le> 90) \<or> n = 95 \<or> (97 \<le> n \<and> n \<le> 122))"

text \<open>
  \<open>Canonicalize\<close> of the regular-expression semantics under the \<open>i\<close> flag (no \<open>u\<close> flag): a
  character is compared through its upper-case form, except that a character with code
  \<open>\<ge> 128\<close> is never mapped to one with code \<open>< 128\<close>. Every pattern character of the program
  is an ASCII letter or the space, so a comparison with a pattern character is decided by
  the ASCII folding alone, which is what the definition gives.
\<close>

definition canonicalize :: "char \<Rightarrow> char" where
  "canonicalize c =
     (let n = (of_char c :: nat) in if 97 \<le> n \<and> n \<le> 122 then char_of (n - 32) else c)"

text \<open>
  The pattern \<open>\bword\b\<close> with the flags \<open>g\<close> and \<open>i\<close>, where \<open>word\<close> is a literal (no character
  of the vocabulary is a metacharacter). The matcher works at a position of the input and
  sees the input from there on (\<open>s\<close>) and whether the character before the position is a
  word character (\<open>prev\<close>, false at the start of the input).

  \<open>\b\<close> holds at a position when exactly one of the characters before it and at it is a word
  character; a position outside the input holds no word character.
\<close>

definition nextIsWord :: "string \<Rightarrow> bool" where
  "nextIsWord s = (case s of [] \<Rightarrow> False | c # cs \<Rightarrow> isWordChar c)"

text \<open>
  The literal, character by character under \<open>Canonicalize\<close>: \<open>None\<close> when it does not match,
  else the input after the match and whether the last character before it is a word
  character.
\<close>

fun matchLiteral :: "string \<Rightarrow> bool \<Rightarrow> string \<Rightarrow> (bool \<times> string) option" where
  "matchLiteral [] prev s = Some (prev, s)"
| "matchLiteral (p # ps) prev [] = None"
| "matchLiteral (p # ps) prev (c # cs) =
     (if canonicalize c = canonicalize p then matchLiteral ps (isWordChar c) cs else None)"

definition matchHere :: "string \<Rightarrow> bool \<Rightarrow> string \<Rightarrow> bool" where
  "matchHere word prev s =
     (prev \<noteq> nextIsWord s \<and>
      (case matchLiteral word prev s of
         None \<Rightarrow> False
       | Some (prev', rest) \<Rightarrow> prev' \<noteq> nextIsWord rest))"

text \<open>
  \<open>(text.match(regex) || []).length\<close>: the search starts at \<open>lastIndex = 0\<close>; a failed attempt
  moves on by one position; a match is counted and the search resumes at its end (one
  position further for an empty match); the last attempt is at the end of the input. \<open>skip\<close>
  is the number of positions up to the next attempt: after a match, the positions inside
  it.
\<close>

fun regexCount :: "string \<Rightarrow> nat \<Rightarrow> bool \<Rightarrow> string \<Rightarrow> nat" where
  "regexCount word skip prev [] = (if skip = 0 \<and> matchHere word prev [] then 1 else 0)"
| "regexCount word skip prev (c # cs) =
     (if skip = 0 \<and> matchHere word prev (c # cs)
      then Suc (regexCount word (length word - 1) (isWordChar c) cs)
      else regexCount word (skip - 1) (isWordChar c) cs)"

definition matchCount :: "string \<Rightarrow> string \<Rightarrow> nat" where
  "matchCount word text = regexCount word 0 False text"

text \<open>\<open>s.split(sep)\<close> for a separator of one character; \<open>cur\<close> holds the current piece, reversed.\<close>

fun splitOn :: "char \<Rightarrow> string \<Rightarrow> string \<Rightarrow> string list" where
  "splitOn sep cur [] = [rev cur]"
| "splitOn sep cur (c # cs) =
     (if c = sep then rev cur # splitOn sep [] cs else splitOn sep (c # cur) cs)"

definition split_space :: "string \<Rightarrow> string list" where
  "split_space text = splitOn CHR '' '' [] text"

text \<open>\<open>s.startsWith(p)\<close> and \<open>s.includes(p)\<close>.\<close>

fun startsWith :: "string \<Rightarrow> string \<Rightarrow> bool" where
  "startsWith s [] = True"
| "startsWith [] (p # ps) = False"
| "startsWith (c # cs) (p # ps) = (c = p \<and> startsWith cs ps)"

fun includes_str :: "string \<Rightarrow> string \<Rightarrow> bool" where
  "includes_str [] p = (p = [])"
| "includes_str (c # cs) p = (startsWith (c # cs) p \<or> includes_str cs p)"

text \<open>\<open>/[.?!]/.test(text)\<close>.\<close>

definition hasSentenceEnding :: "string \<Rightarrow> bool" where
  "hasSentenceEnding text =
     (\<exists>c \<in> set text. c = CHR ''.'' \<or> c = CHR ''?'' \<or> c = CHR ''!'')"


section \<open>The base scorer (component SpeakingPractice)\<close>

definition fillerWords :: "string list" where
  "fillerWords =
     [''uh'', ''um'', ''like'', ''you know'', ''actually'', ''basically'', ''literally'']"

text \<open>
  The feedback lines. Each is a fixed string literal of the source but the first, a template
  holding the filler word and its count; the literals are pairwise different, so a line is
  identified by its constructor:
  \<^item> \<open>FillerMsg word count\<close>: "You used "word" count time(s). Try reducing it.";
  \<^item> \<open>ShortSpeechMsg\<close>: "Try speaking in longer sentences with more details.";
  \<^item> \<open>SentenceEndingMsg\<close>: "Work on finishing sentences with proper endings.";
  \<^item> \<open>VocabularyTip\<close>: "Instead of 'good', try 'excellent', 'fantastic', or 'wonderful'.";
  \<^item> \<open>DurationMsg\<close>: "Try to speak for at least 1 minute for better practice.";
  \<^item> \<open>GreatJobMsg\<close>: "Great job! Fluent and clear.".
\<close>

datatype message =
    FillerMsg string nat
  | ShortSpeechMsg
  | SentenceEndingMsg
  | VocabularyTip
  | DurationMsg
  | GreatJobMsg

text \<open>The value \<open>{ feedback, score, fillerStats }\<close>; it is also the state of the function's body.\<close>

record suggestion_result =
  feedback :: "message list"
  score :: int
  fillerStats :: "string \<rightharpoonup> nat"

text \<open>The body of \<open>fillerWords.forEach\<close>.\<close>

definition fillerStep :: "string \<Rightarrow> string \<Rightarrow> suggestion_result \<Rightarrow> suggestion_result" where
  "fillerStep text word st =
     (let count = matchCount word text in
      if 0 < count
      then st\<lparr> fillerStats := (fillerStats st)(word \<mapsto> count),
               feedback := feedback st @ [FillerMsg word count],
               score := score st - (if 3 \<le> count then 2 else 1) \<rparr>
      else st)"

definition shortSpeechCheck :: "string \<Rightarrow> suggestion_result \<Rightarrow> suggestion_result" where
  "shortSpeechCheck text st =
     (if length (split_space text) < 15
      then st\<lparr> feedback := feedback st @ [ShortSpeechMsg], score := score st - 2 \<rparr>
      else st)"

definition sentenceStructureCheck :: "string \<Rightarrow> suggestion_result \<Rightarrow> suggestion_result" where
  "sentenceStructureCheck text st =
     (if \<not> hasSentenceEnding text
      then st\<lparr> feedback := feedback st @ [SentenceEndingMsg], score := score st - 1 \<rparr>
      else st)"

definition vocabularyTip :: "string \<Rightarrow> suggestion_result \<Rightarrow> suggestion_result" where
  "vocabularyTip text st =
     (if includes_str text ''good'' then st\<lparr> feedback := feedback st @ [VocabularyTip] \<rparr> else st)"

definition durationEncouragement :: "int \<Rightarrow> suggestion_result \<Rightarrow> suggestion_result" where
  "durationEncouragement duration st =
     (if duration < 30
      then st\<lparr> feedback := feedback st @ [DurationMsg], score := score st - 1 \<rparr>
      else st)"

definition fallbackAffirmation :: "suggestion_result \<Rightarrow> suggestion_result" where
  "fallbackAffirmation st =
     (if length (feedback st) = 0 then st\<lparr> feedback := feedback st @ [GreatJobMsg] \<rparr> else st)"

definition clampScore :: "suggestion_result \<Rightarrow> suggestion_result" where
  "clampScore st = (if score st < 0 then st\<lparr> score := 0 \<rparr> else st)"

definition generateSuggestions :: "string \<Rightarrow> int \<Rightarrow> suggestion_result" where
  "generateSuggestions text duration =
     (let st0 = \<lparr> feedback = [], score = 10, fillerStats = Map.empty \<rparr>;
          st1 = fold (fillerStep text) fillerWords st0;
          st2 = shortSpeechCheck text st1;
          st3 = sentenceStructureCheck text st2;
          st4 = vocabularyTip text st3;
          st5 = durationEncouragement duration st4;
          st6 = fallbackAffirmation st5
      in clampScore st6)"

text \<open>
  The component's state (\<open>useState\<close>) and a record of the session history. \<open>stopRecording\<close>
  also stops the recogniser and the interval timer, which hold no state of the model.
\<close>

record session =
  s_text :: string
  s_duration :: int
  s_feedback :: "message list"
  s_score :: int
  s_fillerStats :: "string \<rightharpoonup> nat"

record practice_state =
  isRecording :: bool
  transcript_sp :: string
  sessionHistory :: "session list"
  suggestions :: "message list"
  timer :: int

definition stopRecording :: "practice_state \<Rightarrow> practice_state" where
  "stopRecording st =
     (let newSuggestions = generateSuggestions (transcript_sp st) (timer st) in
      st\<lparr> suggestions := feedback newSuggestions,
          sessionHistory :=
            \<lparr> s_text = transcript_sp st,
              s_duration = timer st,
              s_feedback = feedback newSuggestions,
              s_score = score newSuggestions,
              s_fillerStats = fillerStats newSuggestions \<rparr> # sessionHistory st,
          isRecording := False \<rparr>)"


section \<open>The extended analysis (component PracticeDemoPro)\<close>

text \<open>\<open>\s\<close> of a regular expression, for the characters of the model: TAB, LF, VT, FF, CR, SP, NBSP.\<close>

definition isSpace :: "char \<Rightarrow> bool" where
  "isSpace c = (let n = (of_char c :: nat) in (9 \<le> n \<and> n \<le> 13) \<or> n = 32 \<or> n = 160)"

text \<open>
  \<open>s.toLowerCase()\<close>, for the characters of the model: the letters A-Z and the Latin-1 capitals
  U+00C0 .. U+00DE (the multiplication sign U+00D7 apart) move up by 32.
\<close>

definition toLowerChar :: "char \<Rightarrow> char" where
  "toLowerChar c =
     (let n = (of_char c :: nat) in
      if (65 \<le> n \<and> n \<le> 90) \<or> (192 \<le> n \<and> n \<le> 222 \<and> n \<noteq> 215) then char_of (n + 32) else c)"

definition toLowerCase :: "string \<Rightarrow> string" where
  "toLowerCase s = map toLowerChar s"

text \<open>
  \<open>s.split(/\s+/)\<close>: the pieces between the maximal runs of whitespace; a run at the start or
  at the end of the string leaves an empty piece there, and the empty string gives one
  empty piece. \<open>cur\<close> holds the current piece, reversed.
\<close>

function splitWhitespace :: "string \<Rightarrow> string \<Rightarrow> string list" where
  "splitWhitespace cur [] = [rev cur]"
| "splitWhitespace cur (c # cs) =
     (if isSpace c then rev cur # splitWhitespace [] (dropWhile isSpace cs)
      else splitWhitespace (c # cur) cs)"
  by pat_completeness auto
termination
  by (relation "measure (\<lambda>(cur, s). length s)")
     (auto simp: length_dropWhile_le less_Suc_eq_le)

definition split_ws :: "string \<Rightarrow> string list" where
  "split_ws s = splitWhitespace [] s"

definition fillerWords_pro :: "string list" where
  "fillerWords_pro = [''uh'', ''um'', ''like'', ''you know'', ''actually'']"

text \<open>The first \<open>words.forEach\<close>: \<open>fillerCount\<close>.\<close>

definition countFillers :: "string list \<Rightarrow> nat" where
  "countFillers words =
     fold (\<lambda>w fillerCount.
             if toLowerCase w \<in> set fillerWords_pro then fillerCount + 1 else fillerCount)
          words 0"

text \<open>
  The second \<open>words.forEach\<close>: \<open>wordFrequency\<close>, an object used as a table from the lower-cased
  words. Its entries are kept in the order of their creation. A value is a number, but for the
  two lower-case names that an empty object inherits: reading \<open>constructor\<close> gives a function
  the first time, so the entry becomes a string (\<open>NotANumber\<close>) and stays one, and \<open>__proto__\<close>
  is an accessor whose setter ignores the string it is given, so no entry is ever created.
\<close>

datatype frequency = Count nat | NotANumber

definition bumpFrequency ::
  "string \<Rightarrow> (string \<times> frequency) list \<Rightarrow> (string \<times> frequency) list" where
  "bumpFrequency lw tbl =
     (if lw = ''__proto__'' then tbl
      else case map_of tbl lw of
             None \<Rightarrow> tbl @ [(lw, if lw = ''constructor'' then NotANumber else Count 1)]
           | Some (Count n) \<Rightarrow>
               map (\<lambda>(k, v). if k = lw then (k, Count (n + 1)) else (k, v)) tbl
           | Some NotANumber \<Rightarrow> tbl)"

definition wordFrequency :: "string list \<Rightarrow> (string \<times> frequency) list" where
  "wordFrequency words = fold (\<lambda>w tbl. bumpFrequency (toLowerCase w) tbl) words []"

text \<open>
  \<open>Object.entries\<close>: the keys that are array indices (the decimal numerals of the numbers
  below \<open>2^32 - 1\<close>) come first, in ascending order, then the other keys in the order of their
  creation.
\<close>

definition isDigit :: "char \<Rightarrow> bool" where
  "isDigit c = (let n = (of_char c :: nat) in 48 \<le> n \<and> n \<le> 57)"

definition decimalValue :: "string \<Rightarrow> nat" where
  "decimalValue k = foldl (\<lambda>a c. 10 * a + (of_char c - 48)) 0 k"

definition isArrayIndex :: "string \<Rightarrow> bool" where
  "isArrayIndex k =
     (k \<noteq> [] \<and> list_all isDigit k \<and> (length k = 1 \<or> hd k \<noteq> CHR ''0'') \<and>
      decimalValue k < 4294967295)"

definition objectEntries :: "(string \<times> frequency) list \<Rightarrow> (string \<times> frequency) list" where
  "objectEntries tbl =
     sort_key (\<lambda>(k, v). decimalValue k) (filter (\<lambda>(k, v). isArrayIndex k) tbl) @
     filter (\<lambda>(k, v). \<not> isArrayIndex k) tbl"

text \<open>\<open>count > 3\<close> on a value of the table: false on the string, which converts to \<open>NaN\<close>.\<close>

definition moreThanThree :: "frequency \<Rightarrow> bool" where
  "moreThanThree v = (case v of Count n \<Rightarrow> 3 < n | NotANumber \<Rightarrow> False)"

definition repeatedWordsOf :: "string list \<Rightarrow> string list" where
  "repeatedWordsOf words =
     map fst (filter (\<lambda>(w, count). moreThanThree count \<and> 3 < length w)
                     (objectEntries (wordFrequency words)))"

text \<open>
  The grammar service. The outcome of the request is the input of the model: \<open>fetch\<close> rejects,
  or \<open>res.json()\<close> rejects, or a body is parsed, whose \<open>matches\<close> may be missing. A match may
  hold the numbers \<open>offset\<close> and \<open>length\<close>, the string \<open>message\<close> and \<open>replacements\<close>, a list of
  objects that may hold a string \<open>value\<close>; \<open>None\<close> is a missing property, which reads as
  \<open>undefined\<close>.
\<close>

record replacement =
  r_value :: "string option"

record lt_match =
  m_offset :: "int option"
  m_length :: "int option"
  m_message :: "string option"
  m_replacements :: "replacement list option"

datatype grammar_response = FetchRejected | JsonRejected | Parsed "lt_match list option"

text \<open>
  The suggested text of an entry: the placeholder of the source is the one-character string
  U+2014 (an em dash), which is no string of the model (and so differs from every
  replacement value of the model); \<open>Dash\<close> stands for it.
\<close>

datatype suggestion_text = Dash | Replacement string

record grammar_suggestion =
  g_error :: string
  g_suggestion :: suggestion_text
  g_message :: "string option"

text \<open>
  \<open>s.substring(start, end)\<close> on integers: both are clamped to \<open>[0, s.length]\<close> and swapped
  when the first is the greater.
\<close>

definition substring :: "string \<Rightarrow> int \<Rightarrow> int \<Rightarrow> string" where
  "substring s start end =
     (let len = int (length s);
          finalStart = min (max start 0) len;
          finalEnd = min (max end 0) len;
          from = min finalStart finalEnd;
          to = max finalStart finalEnd
      in take (nat (to - from)) (drop (nat from) s))"

text \<open>
  The arguments \<open>m.offset\<close> and \<open>m.offset + m.length\<close> of \<open>substring\<close>: a sum with \<open>undefined\<close> is
  \<open>NaN\<close>, and \<open>substring\<close> reads \<open>undefined\<close> and \<open>NaN\<close> as 0.
\<close>

definition addNumbers :: "int option \<Rightarrow> int option \<Rightarrow> int option" where
  "addNumbers a b = (case a of None \<Rightarrow> None | Some x \<Rightarrow> (case b of None \<Rightarrow> None | Some y \<Rightarrow> Some (x + y)))"

definition toInteger :: "int option \<Rightarrow> int" where
  "toInteger v = (case v of None \<Rightarrow> 0 | Some n \<Rightarrow> n)"

text \<open>\<open>m.replacements[0]?.value || "\<dots>"\<close>; \<open>None\<close> is the \<open>TypeError\<close> of indexing \<open>undefined\<close>.\<close>

definition firstReplacement :: "lt_match \<Rightarrow> suggestion_text option" where
  "firstReplacement m =
     (case m_replacements m of
        None \<Rightarrow> None
      | Some [] \<Rightarrow> Some Dash
      | Some (r # rs) \<Rightarrow>
          (case r_value r of
             None \<Rightarrow> Some Dash
           | Some v \<Rightarrow> Some (if v = [] then Dash else Replacement v)))"

text \<open>The callback of \<open>data.matches.map\<close>, and the map itself, which an exception abandons.\<close>

definition toSuggestion :: "string \<Rightarrow> lt_match \<Rightarrow> grammar_suggestion option" where
  "toSuggestion transcript m =
     (case firstReplacement m of
        None \<Rightarrow> None
      | Some sg \<Rightarrow>
          Some \<lparr> g_error = substring transcript (toInteger (m_offset m))
                             (toInteger (addNumbers (m_offset m) (m_length m))),
                 g_suggestion = sg,
                 g_message = m_message m \<rparr>)"

fun mapMatches :: "string \<Rightarrow> lt_match list \<Rightarrow> grammar_suggestion list option" where
  "mapMatches transcript [] = Some []"
| "mapMatches transcript (m # ms) =
     (case toSuggestion transcript m of
        None \<Rightarrow> None
      | Some g \<Rightarrow>
          (case mapMatches transcript ms of None \<Rightarrow> None | Some gs \<Rightarrow> Some (g # gs)))"

text \<open>
  The \<open>try\<close> block: \<open>None\<close> when it throws (\<open>fetch\<close> or \<open>res.json()\<close> rejects, \<open>data.matches\<close> is
  \<open>undefined\<close>, or the callback throws), else the list it assigns. \<open>grammarSuggestions\<close> is
  assigned only when nothing has thrown, and the \<open>catch\<close> leaves the initial empty list.
\<close>

definition grammarTry :: "string \<Rightarrow> grammar_response \<Rightarrow> grammar_suggestion list option" where
  "grammarTry transcript response =
     (case response of
        FetchRejected \<Rightarrow> None
      | JsonRejected \<Rightarrow> None
      | Parsed None \<Rightarrow> None
      | Parsed (Some ms) \<Rightarrow> mapMatches transcript ms)"

definition grammarCheck :: "string \<Rightarrow> grammar_response \<Rightarrow> grammar_suggestion list" where
  "grammarCheck transcript response =
     (case grammarTry transcript response of None \<Rightarrow> [] | Some gs \<Rightarrow> gs)"

text \<open>
  \<open>fillerCount > words.length * 0.1\<close> is a comparison of IEEE 754 doubles. The literal \<open>0.1\<close>
  is the double \<open>3602879701896397 / 2^55\<close>, so the exact product with the integer \<open>n\<close> is
  \<open>n * 3602879701896397 / 2^55\<close>; the multiplication returns it rounded to 53 significant
  bits, ties to even. \<open>roundToDouble\<close> rounds the numerator (the products of the program are
  far from the ends of the exponent range), \<open>bitlen\<close> is the number of its bits.
\<close>

fun bitlen :: "nat \<Rightarrow> nat" where
  "bitlen 0 = 0"
| "bitlen (Suc n) = Suc (bitlen (Suc n div 2))"

definition roundToDouble :: "nat \<Rightarrow> nat" where
  "roundToDouble N =
     (if bitlen N \<le> 53 then N
      else let s = bitlen N - 53;
               q = N div 2 ^ s;
               r = N mod 2 ^ s;
               half = 2 ^ (s - 1)
           in (if half < r \<or> (r = half \<and> odd q) then q + 1 else q) * 2 ^ s)"

definition timesPointOne :: "nat \<Rightarrow> nat" where
  "timesPointOne n = roundToDouble (n * 3602879701896397)"

definition exceedsPointOneTimes :: "nat \<Rightarrow> nat \<Rightarrow> bool" where
  "exceedsPointOneTimes count n = (timesPointOne n < count * 2 ^ 55)"

text \<open>
  The report, as the body of \<open>analyzeTranscript\<close> computes it from the transcript and the
  outcome of the grammar request.
\<close>

record report =
  fillerCount :: nat
  repeatedWords :: "string list"
  grammarSuggestions :: "grammar_suggestion list"
  fluencyScore :: int
  tone :: string

definition fluencyScoreOf :: "nat \<Rightarrow> string list \<Rightarrow> string list \<Rightarrow> int" where
  "fluencyScoreOf count words repeated =
     (let fluencyScore = 10;
          fluencyScore = (if 5 < count then fluencyScore - 2 else fluencyScore);
          fluencyScore = (if length words < 10 then fluencyScore - 2 else fluencyScore);
          fluencyScore = (if 0 < length repeated then fluencyScore - 1 else fluencyScore)
      in if fluencyScore < 0 then 0 else fluencyScore)"

definition toneOf :: "nat \<Rightarrow> string list \<Rightarrow> string" where
  "toneOf count words =
     (if exceedsPointOneTimes count (length words) then ''Hesitant''
      else if 15 < length words then ''Confident''
      else ''Neutral'')"

definition analysisReport :: "string \<Rightarrow> grammar_response \<Rightarrow> report" where
  "analysisReport transcript response =
     (let words = split_ws transcript;
          fillerCount = countFillers words;
          repeatedWords = repeatedWordsOf words;
          grammarSuggestions = grammarCheck transcript response
      in \<lparr> fillerCount = fillerCount,
           repeatedWords = repeatedWords,
           grammarSuggestions = grammarSuggestions,
           fluencyScore = fluencyScoreOf fillerCount words repeatedWords,
           tone = toneOf fillerCount words \<rparr>)"

text \<open>
  The component's state and the asynchronous function. \<open>analyzeTranscript\<close> reads \<open>transcript\<close>
  and \<open>history\<close> as the render that created it saw them; \<open>analyzeStart\<close> is the part before the
  \<open>await\<close> (\<open>None\<close>: it has returned at once), \<open>analyzeResume\<close> the part after it, run on the
  state of that later moment with the outcome of the request and the time of day as a
  string. \<open>analyzeTranscript\<close> is the call during which no other handler changes the state.
\<close>

record history_entry =
  h_text :: string
  h_feedback :: report
  h_time :: string

record demo_state =
  transcript_pro :: string
  isRecording_pro :: bool
  feedback_pro :: "report option"
  history :: "history_entry list"

text \<open>
  The recogniser's \<open>onresult\<close> handler: the pieces of the event are joined, each followed by a
  space, and the transcript becomes the result without the whitespace at its ends
  (\<open>s.trim()\<close> strips the characters of \<open>\s\<close>).
\<close>

definition trim :: "string \<Rightarrow> string" where
  "trim s = rev (dropWhile isSpace (rev (dropWhile isSpace s)))"

definition onresult :: "string list \<Rightarrow> demo_state \<Rightarrow> demo_state" where
  "onresult pieces st =
     st\<lparr> transcript_pro := trim (concat (map (\<lambda>piece. piece @ '' '') pieces)) \<rparr>"

record captured =
  c_transcript :: string
  c_history :: "history_entry list"

definition analyzeStart :: "demo_state \<Rightarrow> captured option" where
  "analyzeStart st =
     (if transcript_pro st = [] then None
      else Some \<lparr> c_transcript = transcript_pro st, c_history = history st \<rparr>)"

definition analyzeResume ::
  "captured \<Rightarrow> grammar_response \<Rightarrow> string \<Rightarrow> demo_state \<Rightarrow> demo_state" where
  "analyzeResume c response now st =
     (let report = analysisReport (c_transcript c) response in
      st\<lparr> feedback_pro := Some report,
          history :=
            c_history c @ [\<lparr> h_text = c_transcript c, h_feedback = report, h_time = now \<rparr>],
          transcript_pro := [] \<rparr>)"

definition analyzeTranscript :: "grammar_response \<Rightarrow> string \<Rightarrow> demo_state \<Rightarrow> demo_state" where
  "analyzeTranscript response now st =
     (case analyzeStart st of None \<Rightarrow> st | Some c \<Rightarrow> analyzeResume c response now st)"


section \<open>Notions used in the statements\<close>

text \<open>The points a filler word costs, from the number of its matches.\<close>

definition fillerDeduction :: "nat \<Rightarrow> int" where
  "fillerDeduction count = (if count = 0 then 0 else if 3 \<le> count then 2 else 1)"

text \<open>The filler lines of a text for a list of words: one line for each word that occurs.\<close>

definition fillerMessagesFor :: "string \<Rightarrow> string list \<Rightarrow> message list" where
  "fillerMessagesFor text ws =
     concat (map (\<lambda>w. if 0 < matchCount w text then [FillerMsg w (matchCount w text)] else [])
                 ws)"

text \<open>
  The count of a word that the specification speaks of: the number of its case-insensitive
  whole-word occurrences in the text. An occurrence at position \<open>i\<close> is a piece of the text
  that equals the word when case is ignored and has no word character next to it on either
  side.
\<close>

definition equalIgnoringCase :: "string \<Rightarrow> string \<Rightarrow> bool" where
  "equalIgnoringCase a b = (toLowerCase a = toLowerCase b)"

definition wholeWordAt :: "string \<Rightarrow> string \<Rightarrow> nat \<Rightarrow> bool" where
  "wholeWordAt word text i =
     (i + length word \<le> length text \<and>
      equalIgnoringCase (take (length word) (drop i text)) word \<and>
      (i = 0 \<or> \<not> isWordChar (text ! (i - 1))) \<and>
      (i + length word = length text \<or> \<not> isWordChar (text ! (i + length word))))"

definition wholeWordOccurrences :: "string \<Rightarrow> string \<Rightarrow> nat" where
  "wholeWordOccurrences word text =
     length (filter (wholeWordAt word text) [0..<Suc (length text)])"

text \<open>
  What the proofs use of a word of the vocabulary: it is made of lower-case letters and
  spaces, begins and ends with a letter, and no letter after a space is its first letter
  (so two occurrences cannot overlap).
\<close>

definition isLowerLetter :: "char \<Rightarrow> bool" where
  "isLowerLetter c = (let n = (of_char c :: nat) in 97 \<le> n \<and> n \<le> 122)"

definition plainWord :: "string \<Rightarrow> bool" where
  "plainWord w =
     (w \<noteq> [] \<and> isLowerLetter (hd w) \<and> isLowerLetter (last w) \<and>
      list_all (\<lambda>c. isLowerLetter c \<or> c = CHR '' '') w \<and>
      list_all (\<lambda>d. \<not> (w ! (d - 1) = CHR '' '' \<and> w ! d = hd w)) [1..<length w])"

text \<open>The filler lines about one word, among feedback lines.\<close>

definition isFillerMsgFor :: "string \<Rightarrow> message \<Rightarrow> bool" where
  "isFillerMsgFor w m = (case m of FillerMsg v n \<Rightarrow> v = w | _ \<Rightarrow> False)"

text \<open>
  The tokens of a text split on whitespace, as the specification's length check words it:
  the maximal runs of characters that are not whitespace.
\<close>

definition whitespaceTokens :: "string \<Rightarrow> string list" where
  "whitespaceTokens text = filter (\<lambda>t. t \<noteq> []) (split_ws text)"

text \<open>
  The number of tokens that equal a word of a vocabulary when case is ignored, and the
  filler-word count that the specification gives the extended analysis: that number for
  the closed vocabulary of the specification, which has seven words.
\<close>

definition tokensAmong :: "string list \<Rightarrow> string list \<Rightarrow> nat" where
  "tokensAmong vocabulary words =
     length (filter (\<lambda>w. \<exists>v \<in> set vocabulary. equalIgnoringCase w v) words)"

definition fillerTokens :: "string list \<Rightarrow> nat" where
  "fillerTokens words =
     tokensAmong [''uh'', ''um'', ''like'', ''you know'', ''actually'', ''basically'',
                  ''literally''] words"

text \<open>
  A transcript as the recogniser's handler stores it (\<open>setTranscript(text.trim())\<close>), when it
  is not empty: no whitespace at either end.
\<close>

definition trimmed :: "string \<Rightarrow> bool" where
  "trimmed s = (s \<noteq> [] \<and> \<not> isSpace (hd s) \<and> \<not> isSpace (last s))"

text \<open>
  The grammar adapter as the specification words it. A response is a collection of match
  objects with \<open>offset\<close>, \<open>length\<close>, \<open>message\<close> and \<open>replacements\<close>, where the absence of
  \<open>replacements\<close> is valid. Each match maps to the substring of the text at
  \<open>[offset, offset + length)\<close>, the value of the first replacement or the placeholder, and the
  message; any failure, a malformed response among them, gives no suggestion.
\<close>

definition specValidMatch :: "lt_match \<Rightarrow> bool" where
  "specValidMatch m = (m_offset m \<noteq> None \<and> m_length m \<noteq> None \<and> m_message m \<noteq> None)"

definition specSuggestion :: "string \<Rightarrow> lt_match \<Rightarrow> grammar_suggestion" where
  "specSuggestion tr m =
     \<lparr> g_error = take (nat (toInteger (m_length m))) (drop (nat (toInteger (m_offset m))) tr),
       g_suggestion =
         (case m_replacements m of
            Some (r # rs) \<Rightarrow> (case r_value r of Some v \<Rightarrow> Replacement v | None \<Rightarrow> Dash)
          | _ \<Rightarrow> Dash),
       g_message = m_message m \<rparr>"

definition specGrammarSuggestions :: "string \<Rightarrow> grammar_response \<Rightarrow> grammar_suggestion list" where
  "specGrammarSuggestions tr response =
     (case response of
        Parsed (Some ms) \<Rightarrow> if list_all specValidMatch ms then map (specSuggestion tr) ms else []
      | _ \<Rightarrow> [])"


section \<open>The base scorer in closed form\<close>

lemma fold_fillerStep_feedback:
  "feedback (fold (fillerStep text) ws st) = feedback st @ fillerMessagesFor text ws"
  by (induction ws arbitrary: st) (simp_all add: fillerMessagesFor_def fillerStep_def Let_def)

lemma fold_fillerStep_score:
  "score (fold (fillerStep text) ws st) =
     score st - (\<Sum>w\<leftarrow>ws. fillerDeduction (matchCount w text))"
  by (induction ws arbitrary: st) (simp_all add: fillerDeduction_def fillerStep_def Let_def)

lemma fold_fillerStep_stats:
  "fillerStats (fold (fillerStep text) ws st) w =
     (if w \<in> set ws \<and> 0 < matchCount w text then Some (matchCount w text)
      else fillerStats st w)"
  by (induction ws arbitrary: st) (auto simp: fillerStep_def Let_def)

lemmas scorer_steps =
  generateSuggestions_def Let_def clampScore_def fallbackAffirmation_def
  durationEncouragement_def vocabularyTip_def sentenceStructureCheck_def shortSpeechCheck_def

lemma generateSuggestions_feedback:
  "feedback (generateSuggestions text duration) =
     (let body = fillerMessagesFor text fillerWords @
                 (if length (split_space text) < 15 then [ShortSpeechMsg] else []) @
                 (if hasSentenceEnding text then [] else [SentenceEndingMsg]) @
                 (if includes_str text ''good'' then [VocabularyTip] else []) @
                 (if duration < 30 then [DurationMsg] else [])
      in if body = [] then [GreatJobMsg] else body)"
  by (simp add: scorer_steps fold_fillerStep_feedback)

lemma generateSuggestions_score:
  "score (generateSuggestions text duration) =
     max 0 (10 - (\<Sum>w\<leftarrow>fillerWords. fillerDeduction (matchCount w text))
               - (if length (split_space text) < 15 then 2 else 0)
               - (if hasSentenceEnding text then 0 else 1)
               - (if duration < 30 then 1 else 0))"
  by (simp add: scorer_steps fold_fillerStep_score)

lemma generateSuggestions_stats:
  "fillerStats (generateSuggestions text duration) w =
     (if w \<in> set fillerWords \<and> 0 < matchCount w text then Some (matchCount w text)
      else None)"
  by (simp add: scorer_steps fold_fillerStep_stats)

lemma fillerDeduction_nonneg: "0 \<le> fillerDeduction c"
  by (simp add: fillerDeduction_def)

lemma sum_fillerDeduction_nonneg: "0 \<le> (\<Sum>w\<leftarrow>ws. fillerDeduction (matchCount w text))"
  by (induction ws) (simp_all add: fillerDeduction_nonneg)

lemma splitOn_length: "length (splitOn sep cur s) = Suc (count_list s sep)"
  by (induction s arbitrary: cur) simp_all


section \<open>The regular-expression count is the count of whole-word occurrences\<close>

lemma code_canonicalize:
  "(of_char (canonicalize c) :: nat) =
     (if 97 \<le> (of_char c :: nat) \<and> (of_char c :: nat) \<le> 122 then of_char c - 32 else of_char c)"
proof -
  have "(of_char c :: nat) - 32 < 256"
    by (rule less_imp_diff_less) simp
  then show ?thesis by (simp add: canonicalize_def Let_def)
qed

lemma code_toLowerChar:
  "(of_char (toLowerChar c) :: nat) =
     (if (65 \<le> (of_char c :: nat) \<and> (of_char c :: nat) \<le> 90) \<or>
         (192 \<le> (of_char c :: nat) \<and> (of_char c :: nat) \<le> 222 \<and> (of_char c :: nat) \<noteq> 215)
      then of_char c + 32 else of_char c)"
  by (simp add: toLowerChar_def Let_def)

lemma char_eq_code: "(c = d) = ((of_char c :: nat) = of_char d)"
  by simp

lemma fold_agree:
  assumes "isLowerLetter p \<or> p = CHR '' ''"
  shows "(canonicalize c = canonicalize p) = (toLowerChar c = toLowerChar p)"
proof -
  define n m where "n = (of_char c :: nat)" and "m = (of_char p :: nat)"
  have m: "m = 32 \<or> (97 \<le> m \<and> m \<le> 122)"
    using assms by (auto simp: isLowerLetter_def Let_def m_def)
  have "((if 97 \<le> n \<and> n \<le> 122 then n - 32 else n) =
         (if 97 \<le> m \<and> m \<le> 122 then m - 32 else m)) =
        ((if (65 \<le> n \<and> n \<le> 90) \<or> (192 \<le> n \<and> n \<le> 222 \<and> n \<noteq> 215) then n + 32 else n) =
         (if (65 \<le> m \<and> m \<le> 90) \<or> (192 \<le> m \<and> m \<le> 222 \<and> m \<noteq> 215) then m + 32 else m))"
    using m by (auto split: if_splits)
  then show ?thesis
    unfolding char_eq_code [of "canonicalize c"] char_eq_code [of "toLowerChar c"]
      code_canonicalize code_toLowerChar n_def m_def .
qed

lemma letter_is_word:
  assumes "isLowerLetter p" and "toLowerChar c = toLowerChar p"
  shows "isWordChar c"
proof -
  define n m where "n = (of_char c :: nat)" and "m = (of_char p :: nat)"
  have m: "97 \<le> m \<and> m \<le> 122"
    using assms(1) by (simp add: isLowerLetter_def Let_def m_def)
  have "(of_char (toLowerChar c) :: nat) = of_char (toLowerChar p)"
    using assms(2) by simp
  then have "(if (65 \<le> n \<and> n \<le> 90) \<or> (192 \<le> n \<and> n \<le> 222 \<and> n \<noteq> 215) then n + 32 else n) =
      (if (65 \<le> m \<and> m \<le> 90) \<or> (192 \<le> m \<and> m \<le> 222 \<and> m \<noteq> 215) then m + 32 else m)"
    unfolding code_toLowerChar n_def m_def .
  with m have "(65 \<le> n \<and> n \<le> 90) \<or> (97 \<le> n \<and> n \<le> 122)"
    by (auto split: if_splits)
  then show ?thesis
    by (auto simp: isWordChar_def Let_def n_def)
qed

lemma lower_fixed:
  assumes "isLowerLetter p \<or> p = CHR '' ''"
  shows "toLowerChar p = p"
proof -
  define m where "m = (of_char p :: nat)"
  have m: "m = 32 \<or> (97 \<le> m \<and> m \<le> 122)"
    using assms by (auto simp: isLowerLetter_def Let_def m_def)
  then have "(if (65 \<le> m \<and> m \<le> 90) \<or> (192 \<le> m \<and> m \<le> 222 \<and> m \<noteq> 215) then m + 32 else m) = m"
    by auto
  then show ?thesis
    unfolding char_eq_code [of "toLowerChar p"] code_toLowerChar m_def .
qed

lemma matchLiteral_Some:
  "matchLiteral w prev s = Some (prev', rest) \<longleftrightarrow>
     length w \<le> length s \<and> map canonicalize (take (length w) s) = map canonicalize w \<and>
     rest = drop (length w) s \<and>
     prev' = (if w = [] then prev else isWordChar (s ! (length w - 1)))"
proof (induction w prev s rule: matchLiteral.induct)
  case (1 prev s)
  show ?case by auto
next
  case (2 p ps prev)
  show ?case by simp
next
  case (3 p ps prev c cs)
  show ?case
  proof (cases "canonicalize c = canonicalize p")
    case True
    with 3 show ?thesis by (cases ps) auto
  next
    case False
    then show ?thesis by auto
  qed
qed

lemma matchHere_iff:
  "matchHere w prev s \<longleftrightarrow>
     prev \<noteq> nextIsWord s \<and> length w \<le> length s \<and>
     map canonicalize (take (length w) s) = map canonicalize w \<and>
     (if w = [] then prev else isWordChar (s ! (length w - 1))) \<noteq> nextIsWord (drop (length w) s)"
proof (cases "matchLiteral w prev s")
  case None
  have "\<not> (length w \<le> length s \<and> map canonicalize (take (length w) s) = map canonicalize w)"
  proof
    assume "length w \<le> length s \<and> map canonicalize (take (length w) s) = map canonicalize w"
    then have "matchLiteral w prev s =
        Some (if w = [] then prev else isWordChar (s ! (length w - 1)), drop (length w) s)"
      unfolding matchLiteral_Some by simp
    with None show False by simp
  qed
  with None show ?thesis by (auto simp: matchHere_def)
next
  case (Some a)
  obtain prev' rest where a: "a = (prev', rest)" by (cases a)
  from Some a have "matchLiteral w prev s = Some (prev', rest)" by simp
  then have "length w \<le> length s \<and> map canonicalize (take (length w) s) = map canonicalize w \<and>
      rest = drop (length w) s \<and>
      prev' = (if w = [] then prev else isWordChar (s ! (length w - 1)))"
    unfolding matchLiteral_Some .
  with Some a show ?thesis by (simp add: matchHere_def)
qed

lemma folds_agree:
  "list_all (\<lambda>c. isLowerLetter c \<or> c = CHR '' '') w \<Longrightarrow>
     (map canonicalize xs = map canonicalize w) = (map toLowerChar xs = map toLowerChar w)"
proof (induction w arbitrary: xs)
  case Nil
  show ?case by simp
next
  case (Cons p ps)
  then show ?case
    by (cases xs) (auto simp: fold_agree)
qed

lemma occurrence_nth:
  assumes "equalIgnoringCase (take (length w) (drop i s)) w" and "i + length w \<le> length s"
    and "j < length w"
  shows "toLowerChar (s ! (i + j)) = toLowerChar (w ! j)"
proof -
  have "map toLowerChar (take (length w) (drop i s)) ! j = map toLowerChar w ! j"
    using assms(1) by (simp add: equalIgnoringCase_def toLowerCase_def)
  then show ?thesis
    using assms(2,3) by simp
qed

lemma plainWord_hd: "plainWord w \<Longrightarrow> isLowerLetter (w ! 0)"
  by (cases w) (auto simp: plainWord_def)

lemma plainWord_last: "plainWord w \<Longrightarrow> isLowerLetter (w ! (length w - 1))"
  by (auto simp: plainWord_def last_conv_nth)

lemma plainWord_nth:
  "plainWord w \<Longrightarrow> j < length w \<Longrightarrow> isLowerLetter (w ! j) \<or> w ! j = CHR '' ''"
  by (auto simp: plainWord_def list_all_length)

lemma plainWord_no_overlap:
  "plainWord w \<Longrightarrow> 0 < d \<Longrightarrow> d < length w \<Longrightarrow> \<not> (w ! (d - 1) = CHR '' '' \<and> w ! d = w ! 0)"
proof -
  assume pw: "plainWord w" and d: "0 < d" "d < length w"
  then have "list_all (\<lambda>d. \<not> (w ! (d - 1) = CHR '' '' \<and> w ! d = hd w)) [1..<length w]"
    by (simp add: plainWord_def)
  moreover have "d \<in> set [1..<length w]" using d by simp
  ultimately have "\<not> (w ! (d - 1) = CHR '' '' \<and> w ! d = hd w)"
    unfolding list_all_iff by blast
  moreover have "hd w = w ! 0" using pw by (cases w) (auto simp: plainWord_def)
  ultimately show ?thesis by simp
qed

lemma occurrences_apart:
  assumes pw: "plainWord w" and first: "wholeWordAt w s i" and d: "0 < d" "d < length w"
  shows "\<not> wholeWordAt w s (i + d)"
proof
  assume second: "wholeWordAt w s (i + d)"
  have le: "i + length w \<le> length s" and eq1: "equalIgnoringCase (take (length w) (drop i s)) w"
    using first by (simp_all add: wholeWordAt_def)
  have le2: "i + d + length w \<le> length s"
    and eq2: "equalIgnoringCase (take (length w) (drop (i + d) s)) w"
    and before: "\<not> isWordChar (s ! (i + d - 1))"
    using second d by (simp_all add: wholeWordAt_def)
  have "toLowerChar (s ! (i + (d - 1))) = toLowerChar (w ! (d - 1))"
    using occurrence_nth [OF eq1 le, of "d - 1"] d by simp
  then have a: "toLowerChar (s ! (i + d - 1)) = toLowerChar (w ! (d - 1))"
    using d by simp
  have "\<not> isLowerLetter (w ! (d - 1))"
    using letter_is_word [OF _ a] before by blast
  then have sp: "w ! (d - 1) = CHR '' ''"
    using plainWord_nth [OF pw, of "d - 1"] d by simp
  have b: "toLowerChar (s ! (i + d)) = toLowerChar (w ! d)"
    using occurrence_nth [OF eq1 le, of d] d by simp
  have "0 < length w" using d by (cases w) auto
  from occurrence_nth [OF eq2 le2 this]
  have c: "toLowerChar (s ! (i + d)) = toLowerChar (w ! 0)" by simp
  have "toLowerChar (w ! d) = w ! d"
    using lower_fixed plainWord_nth [OF pw, of d] d by simp
  moreover have "toLowerChar (w ! 0) = w ! 0"
    using lower_fixed plainWord_hd [OF pw] by simp
  ultimately have "w ! d = w ! 0" using b c by simp
  with sp plainWord_no_overlap [OF pw d] show False by simp
qed


lemma nextIsWord_drop: "nextIsWord (drop n s) = (n < length s \<and> isWordChar (s ! n))"
proof (cases "n < length s")
  case True
  then have "drop n s = s ! n # drop (Suc n) s" by (simp add: Cons_nth_drop_Suc)
  with True show ?thesis by (simp add: nextIsWord_def)
next
  case False
  then show ?thesis by (simp add: nextIsWord_def)
qed

lemma matchHere_wholeWord:
  assumes pw: "plainWord w" and prev: "prev = (pre \<noteq> [] \<and> isWordChar (last pre))"
  shows "matchHere w prev suf = wholeWordAt w (pre @ suf) (length pre)"
proof (cases "length w \<le> length suf \<and> equalIgnoringCase (take (length w) suf) w")
  case False
  have "list_all (\<lambda>c. isLowerLetter c \<or> c = CHR '' '') w"
    using pw by (simp add: plainWord_def)
  from folds_agree [OF this, of "take (length w) suf"] False
  show ?thesis
    by (auto simp: matchHere_iff wholeWordAt_def equalIgnoringCase_def toLowerCase_def)
next
  case True
  then have le: "length w \<le> length suf" and eq: "equalIgnoringCase (take (length w) suf) w"
    by simp_all
  have wne: "w \<noteq> []" and pos: "0 < length w"
    using pw by (simp_all add: plainWord_def)
  have all: "list_all (\<lambda>c. isLowerLetter c \<or> c = CHR '' '') w"
    using pw by (simp add: plainWord_def)
  have canon: "map canonicalize (take (length w) suf) = map canonicalize w"
    using folds_agree [OF all, of "take (length w) suf"] eq
    by (simp add: equalIgnoringCase_def toLowerCase_def)
  have eq0: "equalIgnoringCase (take (length w) (drop 0 suf)) w" using eq by simp
  have le0: "0 + length w \<le> length suf" using le by simp
  have "toLowerChar (suf ! (0 + 0)) = toLowerChar (w ! 0)"
    by (rule occurrence_nth [OF eq0 le0 pos])
  then have first: "isWordChar (suf ! 0)"
    using letter_is_word [OF plainWord_hd [OF pw]] by simp
  have "toLowerChar (suf ! (0 + (length w - 1))) = toLowerChar (w ! (length w - 1))"
    by (rule occurrence_nth [OF eq0 le0]) (use pos in simp)
  then have final: "isWordChar (suf ! (length w - 1))"
    using letter_is_word [OF plainWord_last [OF pw]] by simp
  have sufne: "suf \<noteq> []" using le pos by auto
  then have next1: "nextIsWord suf"
    using first by (cases suf) (simp_all add: nextIsWord_def)
  have here: "matchHere w prev suf \<longleftrightarrow> \<not> prev \<and> \<not> (length w < length suf \<and> isWordChar (suf ! length w))"
    unfolding matchHere_iff nextIsWord_drop using le canon next1 final wne by auto
  have before: "(length pre = 0 \<or> \<not> isWordChar ((pre @ suf) ! (length pre - 1))) \<longleftrightarrow> \<not> prev"
    unfolding prev by (cases "pre = []") (simp_all add: nth_append last_conv_nth)
  have after: "(length pre + length w = length (pre @ suf) \<or>
        \<not> isWordChar ((pre @ suf) ! (length pre + length w))) \<longleftrightarrow>
      \<not> (length w < length suf \<and> isWordChar (suf ! length w))"
    using le by (auto simp: nth_append)
  have "wholeWordAt w (pre @ suf) (length pre) \<longleftrightarrow>
      \<not> prev \<and> \<not> (length w < length suf \<and> isWordChar (suf ! length w))"
    unfolding wholeWordAt_def before after using le eq by simp
  with here show ?thesis by simp
qed

lemma regexCount_occurrences:
  assumes pw: "plainWord w"
  shows "prev = (pre \<noteq> [] \<and> isWordChar (last pre)) \<Longrightarrow>
    (\<forall>j. length pre \<le> j \<and> j < length pre + skip \<longrightarrow> \<not> wholeWordAt w (pre @ suf) j) \<Longrightarrow>
    regexCount w skip prev suf =
      length (filter (wholeWordAt w (pre @ suf)) [length pre ..< Suc (length (pre @ suf))])"
proof (induction suf arbitrary: pre skip prev)
  case Nil
  have "0 < length w" using pw by (simp add: plainWord_def)
  then have no: "\<not> wholeWordAt w pre (length pre)"
    by (simp add: wholeWordAt_def)
  have "matchHere w prev [] = wholeWordAt w (pre @ []) (length pre)"
    by (rule matchHere_wholeWord [OF pw Nil.prems(1)])
  with no show ?case by simp
next
  case (Cons c cs)
  let ?s = "pre @ c # cs"
  let ?i = "length pre"
  have s: "?s = (pre @ [c]) @ cs" by simp
  have upt: "[?i ..< Suc (length ?s)] = ?i # [Suc ?i ..< Suc (length ?s)]"
    by (rule upt_conv_Cons) simp
  have prev': "isWordChar c = (pre @ [c] \<noteq> [] \<and> isWordChar (last (pre @ [c])))"
    by simp
  have here: "matchHere w prev (c # cs) = wholeWordAt w ?s ?i"
    by (rule matchHere_wholeWord [OF pw Cons.prems(1)])
  show ?case
  proof (cases "skip = 0 \<and> matchHere w prev (c # cs)")
    case True
    then have at: "wholeWordAt w ?s ?i" using here by simp
    have apart: "\<forall>j. length (pre @ [c]) \<le> j \<and> j < length (pre @ [c]) + (length w - 1) \<longrightarrow>
        \<not> wholeWordAt w ((pre @ [c]) @ cs) j"
    proof (intro allI impI)
      fix j
      assume j: "length (pre @ [c]) \<le> j \<and> j < length (pre @ [c]) + (length w - 1)"
      then have "0 < j - ?i" "j - ?i < length w" by auto
      from occurrences_apart [OF pw at this] j
      show "\<not> wholeWordAt w ((pre @ [c]) @ cs) j" by simp
    qed
    have "regexCount w (length w - 1) (isWordChar c) cs =
        length (filter (wholeWordAt w ((pre @ [c]) @ cs))
          [length (pre @ [c]) ..< Suc (length ((pre @ [c]) @ cs))])"
      by (rule Cons.IH [OF prev' apart])
    then have "regexCount w (length w - 1) (isWordChar c) cs =
        length (filter (wholeWordAt w ?s) [Suc ?i ..< Suc (length ?s)])"
      by simp
    with True at show ?thesis
      unfolding upt by simp
  next
    case False
    have notat: "\<not> wholeWordAt w ?s ?i"
    proof (cases "skip = 0")
      case True
      with False here show ?thesis by simp
    next
      case False
      with Cons.prems(2) show ?thesis by simp
    qed
    have rest: "\<forall>j. length (pre @ [c]) \<le> j \<and> j < length (pre @ [c]) + (skip - 1) \<longrightarrow>
        \<not> wholeWordAt w ((pre @ [c]) @ cs) j"
      using Cons.prems(2) by auto
    have "regexCount w (skip - 1) (isWordChar c) cs =
        length (filter (wholeWordAt w ((pre @ [c]) @ cs))
          [length (pre @ [c]) ..< Suc (length ((pre @ [c]) @ cs))])"
      by (rule Cons.IH [OF prev' rest])
    then have "regexCount w (skip - 1) (isWordChar c) cs =
        length (filter (wholeWordAt w ?s) [Suc ?i ..< Suc (length ?s)])"
      by simp
    with False notat show ?thesis
      unfolding upt by auto
  qed
qed

lemma matchCount_occurrences:
  assumes "plainWord w"
  shows "matchCount w text = wholeWordOccurrences w text"
  using regexCount_occurrences [OF assms, of False "[]" 0 "text"]
  by (simp add: matchCount_def wholeWordOccurrences_def)

lemma fillerWords_plain: "list_all plainWord fillerWords"
  by code_simp

lemma vocabulary_count:
  assumes "w \<in> set fillerWords"
  shows "matchCount w text = wholeWordOccurrences w text"
proof -
  have "plainWord w"
    using fillerWords_plain assms unfolding list_all_iff by blast
  then show ?thesis by (rule matchCount_occurrences)
qed

lemma vocabulary_messages:
  "fillerMessagesFor text fillerWords =
     concat (map (\<lambda>w. if 0 < wholeWordOccurrences w text
                       then [FillerMsg w (wholeWordOccurrences w text)] else [])
                 fillerWords)"
proof -
  have "map (\<lambda>w. if 0 < matchCount w text then [FillerMsg w (matchCount w text)] else [])
          fillerWords =
        map (\<lambda>w. if 0 < wholeWordOccurrences w text
                  then [FillerMsg w (wholeWordOccurrences w text)] else [])
          fillerWords"
    by (rule map_cong) (simp_all add: vocabulary_count)
  then show ?thesis
    unfolding fillerMessagesFor_def by (rule arg_cong)
qed

lemma vocabulary_deductions:
  "(\<Sum>w\<leftarrow>fillerWords. fillerDeduction (matchCount w text)) =
     (\<Sum>w\<leftarrow>fillerWords. fillerDeduction (wholeWordOccurrences w text))"
proof -
  have "map (\<lambda>w. fillerDeduction (matchCount w text)) fillerWords =
        map (\<lambda>w. fillerDeduction (wholeWordOccurrences w text)) fillerWords"
    by (rule map_cong) (simp_all add: vocabulary_count)
  then show ?thesis by (rule arg_cong)
qed


section \<open>Concrete texts\<close>

text \<open>
  The facts about the texts that the examples below run the scorer on: a fluent text of
  fifteen words, the same with the word "good", fifteen words on fifteen lines, and two texts
  with three times "um", on one line and on fifteen lines.
\<close>

lemma word_chars:
  "isWordChar CHR ''a''" "isWordChar CHR ''u''" "isWordChar CHR ''m''" "isWordChar CHR ''U''"
  "isWordChar CHR ''M''" "isWordChar CHR ''g''" "isWordChar CHR ''o''" "isWordChar CHR ''d''"
  "\<not> isWordChar CHR '' ''" "\<not> isWordChar CHR ''.''" "\<not> isWordChar CHR ''\<newline>''"
  by (simp_all add: isWordChar_def)

lemma space_chars:
  "isSpace CHR '' ''" "isSpace CHR ''\<newline>''" "\<not> isSpace CHR ''a''" "\<not> isSpace CHR ''u''"
  "\<not> isSpace CHR ''m''" "\<not> isSpace CHR ''.''" "\<not> isSpace CHR ''g''" "\<not> isSpace CHR ''o''"
  "\<not> isSpace CHR ''d''"
  by (simp_all add: isSpace_def)

lemma canonical_chars:
  "canonicalize CHR ''a'' = CHR ''A''" "canonicalize CHR ''b'' = CHR ''B''"
  "canonicalize CHR ''c'' = CHR ''C''" "canonicalize CHR ''d'' = CHR ''D''"
  "canonicalize CHR ''e'' = CHR ''E''" "canonicalize CHR ''g'' = CHR ''G''"
  "canonicalize CHR ''h'' = CHR ''H''" "canonicalize CHR ''i'' = CHR ''I''"
  "canonicalize CHR ''k'' = CHR ''K''" "canonicalize CHR ''l'' = CHR ''L''"
  "canonicalize CHR ''m'' = CHR ''M''" "canonicalize CHR ''n'' = CHR ''N''"
  "canonicalize CHR ''o'' = CHR ''O''" "canonicalize CHR ''r'' = CHR ''R''"
  "canonicalize CHR ''s'' = CHR ''S''" "canonicalize CHR ''t'' = CHR ''T''"
  "canonicalize CHR ''u'' = CHR ''U''" "canonicalize CHR ''w'' = CHR ''W''"
  "canonicalize CHR ''y'' = CHR ''Y''"
  "canonicalize CHR ''U'' = CHR ''U''" "canonicalize CHR ''M'' = CHR ''M''"
  "canonicalize CHR '' '' = CHR '' ''" "canonicalize CHR ''.'' = CHR ''.''"
  "canonicalize CHR ''\<newline>'' = CHR ''\<newline>''"
  unfolding char_eq_code [of "canonicalize c" for c] code_canonicalize by simp_all

lemmas scan = matchCount_def matchHere_def nextIsWord_def word_chars canonical_chars

lemma vocabulary_members:
  "''uh'' \<in> set fillerWords" "''um'' \<in> set fillerWords" "''like'' \<in> set fillerWords"
  "''you know'' \<in> set fillerWords" "''actually'' \<in> set fillerWords"
  "''basically'' \<in> set fillerWords" "''literally'' \<in> set fillerWords"
  by (simp_all add: fillerWords_def)

lemmas occurrence_counts = vocabulary_members [THEN vocabulary_count, symmetric]

lemma fluent_counts:
  "wholeWordOccurrences ''uh'' ''a a a a a a a a a a a a a a a.'' = 0"
  "wholeWordOccurrences ''um'' ''a a a a a a a a a a a a a a a.'' = 0"
  "wholeWordOccurrences ''like'' ''a a a a a a a a a a a a a a a.'' = 0"
  "wholeWordOccurrences ''you know'' ''a a a a a a a a a a a a a a a.'' = 0"
  "wholeWordOccurrences ''actually'' ''a a a a a a a a a a a a a a a.'' = 0"
  "wholeWordOccurrences ''basically'' ''a a a a a a a a a a a a a a a.'' = 0"
  "wholeWordOccurrences ''literally'' ''a a a a a a a a a a a a a a a.'' = 0"
  unfolding occurrence_counts by (simp_all add: scan)

lemma fluent_checks:
  "length (split_space ''a a a a a a a a a a a a a a a.'') = 15"
  "hasSentenceEnding ''a a a a a a a a a a a a a a a.''"
  "\<not> includes_str ''a a a a a a a a a a a a a a a.'' ''good''"
  by (simp_all add: split_space_def hasSentenceEnding_def)

lemma good_counts:
  "wholeWordOccurrences ''uh'' ''good a a a a a a a a a a a a a a.'' = 0"
  "wholeWordOccurrences ''um'' ''good a a a a a a a a a a a a a a.'' = 0"
  "wholeWordOccurrences ''like'' ''good a a a a a a a a a a a a a a.'' = 0"
  "wholeWordOccurrences ''you know'' ''good a a a a a a a a a a a a a a.'' = 0"
  "wholeWordOccurrences ''actually'' ''good a a a a a a a a a a a a a a.'' = 0"
  "wholeWordOccurrences ''basically'' ''good a a a a a a a a a a a a a a.'' = 0"
  "wholeWordOccurrences ''literally'' ''good a a a a a a a a a a a a a a.'' = 0"
  unfolding occurrence_counts by (simp_all add: scan)

lemma good_checks:
  "length (split_space ''good a a a a a a a a a a a a a a.'') = 15"
  "length (whitespaceTokens ''good a a a a a a a a a a a a a a.'') = 15"
  "hasSentenceEnding ''good a a a a a a a a a a a a a a.''"
  "includes_str ''good a a a a a a a a a a a a a a.'' ''good''"
  by (simp_all add: split_space_def hasSentenceEnding_def whitespaceTokens_def split_ws_def
      space_chars)

lemma lines_counts:
  "wholeWordOccurrences ''uh'' ''a\<newline>a\<newline>a\<newline>a\<newline>a\<newline>a\<newline>a\<newline>a\<newline>a\<newline>a\<newline>a\<newline>a\<newline>a\<newline>a\<newline>a.'' = 0"
  "wholeWordOccurrences ''um'' ''a\<newline>a\<newline>a\<newline>a\<newline>a\<newline>a\<newline>a\<newline>a\<newline>a\<newline>a\<newline>a\<newline>a\<newline>a\<newline>a\<newline>a.'' = 0"
  "wholeWordOccurrences ''like'' ''a\<newline>a\<newline>a\<newline>a\<newline>a\<newline>a\<newline>a\<newline>a\<newline>a\<newline>a\<newline>a\<newline>a\<newline>a\<newline>a\<newline>a.'' = 0"
  "wholeWordOccurrences ''you know'' ''a\<newline>a\<newline>a\<newline>a\<newline>a\<newline>a\<newline>a\<newline>a\<newline>a\<newline>a\<newline>a\<newline>a\<newline>a\<newline>a\<newline>a.'' = 0"
  "wholeWordOccurrences ''actually'' ''a\<newline>a\<newline>a\<newline>a\<newline>a\<newline>a\<newline>a\<newline>a\<newline>a\<newline>a\<newline>a\<newline>a\<newline>a\<newline>a\<newline>a.'' = 0"
  "wholeWordOccurrences ''basically'' ''a\<newline>a\<newline>a\<newline>a\<newline>a\<newline>a\<newline>a\<newline>a\<newline>a\<newline>a\<newline>a\<newline>a\<newline>a\<newline>a\<newline>a.'' = 0"
  "wholeWordOccurrences ''literally'' ''a\<newline>a\<newline>a\<newline>a\<newline>a\<newline>a\<newline>a\<newline>a\<newline>a\<newline>a\<newline>a\<newline>a\<newline>a\<newline>a\<newline>a.'' = 0"
  unfolding occurrence_counts by (simp_all add: scan)

lemma lines_checks:
  "length (split_space ''a\<newline>a\<newline>a\<newline>a\<newline>a\<newline>a\<newline>a\<newline>a\<newline>a\<newline>a\<newline>a\<newline>a\<newline>a\<newline>a\<newline>a.'') = 1"
  "length (whitespaceTokens ''a\<newline>a\<newline>a\<newline>a\<newline>a\<newline>a\<newline>a\<newline>a\<newline>a\<newline>a\<newline>a\<newline>a\<newline>a\<newline>a\<newline>a.'') = 15"
  "hasSentenceEnding ''a\<newline>a\<newline>a\<newline>a\<newline>a\<newline>a\<newline>a\<newline>a\<newline>a\<newline>a\<newline>a\<newline>a\<newline>a\<newline>a\<newline>a.''"
  "\<not> includes_str ''a\<newline>a\<newline>a\<newline>a\<newline>a\<newline>a\<newline>a\<newline>a\<newline>a\<newline>a\<newline>a\<newline>a\<newline>a\<newline>a\<newline>a.'' ''good''"
  by (simp_all add: split_space_def hasSentenceEnding_def whitespaceTokens_def split_ws_def
      space_chars)

lemma um_counts:
  "wholeWordOccurrences ''uh'' ''um a um a UM a a a a a a a a a a.'' = 0"
  "wholeWordOccurrences ''um'' ''um a um a UM a a a a a a a a a a.'' = 3"
  "wholeWordOccurrences ''like'' ''um a um a UM a a a a a a a a a a.'' = 0"
  "wholeWordOccurrences ''you know'' ''um a um a UM a a a a a a a a a a.'' = 0"
  "wholeWordOccurrences ''actually'' ''um a um a UM a a a a a a a a a a.'' = 0"
  "wholeWordOccurrences ''basically'' ''um a um a UM a a a a a a a a a a.'' = 0"
  "wholeWordOccurrences ''literally'' ''um a um a UM a a a a a a a a a a.'' = 0"
  unfolding occurrence_counts by (simp_all add: scan)

lemma um_checks:
  "length (split_space ''um a um a UM a a a a a a a a a a.'') = 15"
  "hasSentenceEnding ''um a um a UM a a a a a a a a a a.''"
  "\<not> includes_str ''um a um a UM a a a a a a a a a a.'' ''good''"
  by (simp_all add: split_space_def hasSentenceEnding_def)

lemma um_lines_counts:
  "wholeWordOccurrences ''uh'' ''um\<newline>um\<newline>um\<newline>a\<newline>a\<newline>a\<newline>a\<newline>a\<newline>a\<newline>a\<newline>a\<newline>a\<newline>a\<newline>a\<newline>a.'' = 0"
  "wholeWordOccurrences ''um'' ''um\<newline>um\<newline>um\<newline>a\<newline>a\<newline>a\<newline>a\<newline>a\<newline>a\<newline>a\<newline>a\<newline>a\<newline>a\<newline>a\<newline>a.'' = 3"
  "wholeWordOccurrences ''like'' ''um\<newline>um\<newline>um\<newline>a\<newline>a\<newline>a\<newline>a\<newline>a\<newline>a\<newline>a\<newline>a\<newline>a\<newline>a\<newline>a\<newline>a.'' = 0"
  "wholeWordOccurrences ''you know'' ''um\<newline>um\<newline>um\<newline>a\<newline>a\<newline>a\<newline>a\<newline>a\<newline>a\<newline>a\<newline>a\<newline>a\<newline>a\<newline>a\<newline>a.'' = 0"
  "wholeWordOccurrences ''actually'' ''um\<newline>um\<newline>um\<newline>a\<newline>a\<newline>a\<newline>a\<newline>a\<newline>a\<newline>a\<newline>a\<newline>a\<newline>a\<newline>a\<newline>a.'' = 0"
  "wholeWordOccurrences ''basically'' ''um\<newline>um\<newline>um\<newline>a\<newline>a\<newline>a\<newline>a\<newline>a\<newline>a\<newline>a\<newline>a\<newline>a\<newline>a\<newline>a\<newline>a.'' = 0"
  "wholeWordOccurrences ''literally'' ''um\<newline>um\<newline>um\<newline>a\<newline>a\<newline>a\<newline>a\<newline>a\<newline>a\<newline>a\<newline>a\<newline>a\<newline>a\<newline>a\<newline>a.'' = 0"
  unfolding occurrence_counts by (simp_all add: scan)

lemma um_lines_checks:
  "length (split_space ''um\<newline>um\<newline>um\<newline>a\<newline>a\<newline>a\<newline>a\<newline>a\<newline>a\<newline>a\<newline>a\<newline>a\<newline>a\<newline>a\<newline>a.'') = 1"
  "length (whitespaceTokens ''um\<newline>um\<newline>um\<newline>a\<newline>a\<newline>a\<newline>a\<newline>a\<newline>a\<newline>a\<newline>a\<newline>a\<newline>a\<newline>a\<newline>a.'') = 15"
  "hasSentenceEnding ''um\<newline>um\<newline>um\<newline>a\<newline>a\<newline>a\<newline>a\<newline>a\<newline>a\<newline>a\<newline>a\<newline>a\<newline>a\<newline>a\<newline>a.''"
  "\<not> includes_str ''um\<newline>um\<newline>um\<newline>a\<newline>a\<newline>a\<newline>a\<newline>a\<newline>a\<newline>a\<newline>a\<newline>a\<newline>a\<newline>a\<newline>a.'' ''good''"
  by (simp_all add: split_space_def hasSentenceEnding_def whitespaceTokens_def split_ws_def
      space_chars)

lemma feedback_in_occurrences:
  "feedback (generateSuggestions text duration) =
     (let body = concat (map (\<lambda>w. if 0 < wholeWordOccurrences w text
                                    then [FillerMsg w (wholeWordOccurrences w text)] else [])
                             fillerWords) @
                 (if length (split_space text) < 15 then [ShortSpeechMsg] else []) @
                 (if hasSentenceEnding text then [] else [SentenceEndingMsg]) @
                 (if includes_str text ''good'' then [VocabularyTip] else []) @
                 (if duration < 30 then [DurationMsg] else [])
      in if body = [] then [GreatJobMsg] else body)"
  unfolding generateSuggestions_feedback vocabulary_messages ..

lemma score_in_occurrences:
  "score (generateSuggestions text duration) =
     max 0 (10 - (\<Sum>w\<leftarrow>fillerWords. fillerDeduction (wholeWordOccurrences w text))
               - (if length (split_space text) < 15 then 2 else 0)
               - (if hasSentenceEnding text then 0 else 1)
               - (if duration < 30 then 1 else 0))"
  unfolding generateSuggestions_score vocabulary_deductions ..

lemmas evaluate_scorer =
  feedback_in_occurrences score_in_occurrences fillerWords_def fillerDeduction_def Let_def

lemma fillerMessagesFor_empty:
  "fillerMessagesFor text ws = [] \<longleftrightarrow> list_all (\<lambda>w. matchCount w text = 0) ws"
  by (induction ws) (simp_all add: fillerMessagesFor_def)

lemma fillerMessagesFor_set:
  "m \<in> set (fillerMessagesFor text ws) \<Longrightarrow> \<exists>w n. m = FillerMsg w n"
  by (auto simp: fillerMessagesFor_def split: if_splits)

lemma vocabulary_silent:
  "list_all (\<lambda>w. matchCount w text = 0) fillerWords =
   list_all (\<lambda>w. wholeWordOccurrences w text = 0) fillerWords"
  unfolding list_all_iff by (simp add: vocabulary_count)

lemma filler_lines_of_list:
  "distinct ws \<Longrightarrow>
   filter (isFillerMsgFor w) (fillerMessagesFor text ws) =
     (if w \<in> set ws \<and> 0 < matchCount w text then [FillerMsg w (matchCount w text)] else [])"
  by (induction ws) (auto simp: fillerMessagesFor_def isFillerMsgFor_def)

lemma fillerWords_distinct: "distinct fillerWords"
  by (simp add: fillerWords_def)

lemma filler_lines:
  "filter (isFillerMsgFor w) (feedback (generateSuggestions text duration)) =
     (if w \<in> set fillerWords \<and> 0 < matchCount w text
      then [FillerMsg w (matchCount w text)] else [])"
proof -
  define rest where "rest =
      (if length (split_space text) < 15 then [ShortSpeechMsg] else []) @
      (if hasSentenceEnding text then [] else [SentenceEndingMsg]) @
      (if includes_str text ''good'' then [VocabularyTip] else []) @
      (if duration < 30 then [DurationMsg] else [])"
  have rest: "filter (isFillerMsgFor w) rest = []"
    by (simp add: rest_def isFillerMsgFor_def)
  have fillers: "filter (isFillerMsgFor w) (fillerMessagesFor text fillerWords) =
      (if w \<in> set fillerWords \<and> 0 < matchCount w text
       then [FillerMsg w (matchCount w text)] else [])"
    by (rule filler_lines_of_list [OF fillerWords_distinct])
  have fb: "feedback (generateSuggestions text duration) =
      (if fillerMessagesFor text fillerWords @ rest = [] then [GreatJobMsg]
       else fillerMessagesFor text fillerWords @ rest)"
    by (simp add: generateSuggestions_feedback Let_def rest_def)
  show ?thesis
  proof (cases "fillerMessagesFor text fillerWords @ rest = []")
    case True
    then have "filter (isFillerMsgFor w) (fillerMessagesFor text fillerWords) = []"
      by simp
    then have "(if w \<in> set fillerWords \<and> 0 < matchCount w text
       then [FillerMsg w (matchCount w text)] else []) = []"
      unfolding fillers .
    with True fb show ?thesis
      by (simp add: isFillerMsgFor_def)
  next
    case False
    with fb fillers rest show ?thesis by simp
  qed
qed

lemma no_short_line_among_fillers: "count_list (fillerMessagesFor text ws) ShortSpeechMsg = 0"
  by (induction ws) (simp_all add: fillerMessagesFor_def)


section \<open>The comparison with a tenth of the number of words\<close>

text \<open>
  For word counts below \<open>2^33\<close>, the comparison of doubles \<open>fillerCount > words.length * 0.1\<close>
  decides whether ten times the count exceeds the number of words: the rounded product
  never crosses an integer \<open>k\<close> that the exact tenth does not cross.
\<close>

lemma bitlen_bound: "n < 2 ^ b \<Longrightarrow> bitlen n \<le> b"
proof (induction b arbitrary: n)
  case 0
  then show ?case by simp
next
  case (Suc b)
  show ?case
  proof (cases "n = 0")
    case True
    then show ?thesis by simp
  next
    case False
    then obtain m where m: "n = Suc m" by (cases n) auto
    from Suc.prems have "n div 2 < 2 ^ b" by simp
    then have "bitlen (n div 2) \<le> b" by (rule Suc.IH)
    then show ?thesis unfolding m by simp
  qed
qed
lemma round_up_bound:
  "roundToDouble N \<le> N + (if bitlen N \<le> 53 then 0 else 2 ^ (bitlen N - 54))"
proof (cases "bitlen N \<le> 53")
  case True
  then show ?thesis by (simp add: roundToDouble_def)
next
  case False
  define s where "s = bitlen N - 53"
  define q where "q = N div 2 ^ s"
  define r where "r = N mod 2 ^ s"
  define h where "h = (2::nat) ^ (s - 1)"
  have s: "0 < s" using False by (simp add: s_def)
  then have two: "(2::nat) ^ s = 2 * h"
    by (cases s) (simp_all add: h_def)
  have N: "N = q * 2 ^ s + r"
    unfolding q_def r_def by (rule div_mult_mod_eq [symmetric])
  have R: "roundToDouble N = (if h < r \<or> (r = h \<and> odd q) then q + 1 else q) * 2 ^ s"
    using False by (simp add: roundToDouble_def Let_def s_def q_def r_def h_def)
  have "roundToDouble N \<le> N + h"
  proof (cases "h < r \<or> (r = h \<and> odd q)")
    case True
    then have "h \<le> r" by auto
    have "roundToDouble N = q * 2 ^ s + 2 * h"
      using True R two by (simp add: algebra_simps)
    also have "\<dots> \<le> q * 2 ^ s + r + h" using \<open>h \<le> r\<close> by simp
    finally show ?thesis using N by simp
  next
    case False
    then have "roundToDouble N = q * 2 ^ s" using R by simp
    then show ?thesis using N by simp
  qed
  moreover have "bitlen N - 54 = s - 1" by (simp add: s_def)
  ultimately show ?thesis using False by (simp add: h_def)
qed
lemma round_keeps_multiple:
  assumes "2 ^ (bitlen N - 53) dvd A" and "A \<le> N"
  shows "A \<le> roundToDouble N"
proof (cases "bitlen N \<le> 53")
  case True
  then show ?thesis using assms(2) by (simp add: roundToDouble_def)
next
  case False
  define s where "s = bitlen N - 53"
  define q where "q = N div 2 ^ s"
  obtain a where A: "A = 2 ^ s * a"
    using assms(1) unfolding s_def by (rule dvdE)
  have "a * 2 ^ s \<le> N" using assms(2) A by (simp add: mult.commute)
  then have "a \<le> q"
    unfolding q_def by (simp add: less_eq_div_iff_mult_less_eq)
  then have "A \<le> q * 2 ^ s" using A by (simp add: mult.commute)
  moreover have "q * 2 ^ s \<le> roundToDouble N"
    using False by (simp add: roundToDouble_def Let_def s_def q_def)
  ultimately show ?thesis by simp
qed
lemma exceeds_tenth:
  assumes k: "k \<le> n" and n: "n < 2 ^ 33"
  shows "exceedsPointOneTimes k n \<longleftrightarrow> n < 10 * k"
proof -
  define C :: nat where "C = 3602879701896397"
  define N where "N = n * C"
  define A where "A = k * 2 ^ 55"
  have ten: "10 * C = 2 ^ 55 + 2" by (simp add: C_def)
  have "N < 2 ^ 33 * 2 ^ 52"
    unfolding N_def using n by (intro mult_strict_mono) (simp_all add: C_def)
  then have "N < 2 ^ 85" by simp
  then have len: "bitlen N \<le> 85" by (rule bitlen_bound)
  show ?thesis
  proof (cases "n < 10 * k")
    case False
    then have "10 * k \<le> n" by simp
    then have "10 * k * C \<le> n * C" by (rule mult_le_mono1)
    then have "k * (2 ^ 55 + 2) \<le> N"
      using ten by (simp add: N_def mult.assoc mult.commute)
    then have "A \<le> N" by (simp add: A_def algebra_simps)
    moreover have "(2::nat) ^ (bitlen N - 53) dvd 2 ^ 55"
      using len by (intro le_imp_power_dvd) simp
    then have "2 ^ (bitlen N - 53) dvd A"
      unfolding A_def by (rule dvd_mult)
    ultimately have "A \<le> roundToDouble N" by (rule round_keeps_multiple [rotated])
    with False show ?thesis
      by (simp add: exceedsPointOneTimes_def timesPointOne_def N_def C_def A_def)
  next
    case True
    then have "Suc n \<le> 10 * k" by simp
    then have "Suc n * C \<le> 10 * k * C" by (rule mult_le_mono1)
    then have "N + C \<le> k * (2 ^ 55 + 2)"
      using ten by (simp add: N_def mult.assoc mult.commute)
    then have NA: "N + C \<le> A + 2 * k" by (simp add: A_def algebra_simps)
    have "(2::nat) ^ (bitlen N - 54) \<le> 2 ^ 31"
      using len by (intro power_increasing) simp_all
    then have "roundToDouble N \<le> N + 2 ^ 31"
      using round_up_bound [of N] by (simp split: if_splits)
    moreover have "2 * k < 2 ^ 34" using k n by simp
    moreover have "(2::nat) ^ 34 + 2 ^ 31 < C" by (simp add: C_def)
    ultimately have "roundToDouble N < A" using NA by linarith
    with True show ?thesis
      by (simp add: exceedsPointOneTimes_def timesPointOne_def N_def C_def A_def)
  qed
qed

section \<open>The tokens of the extended analysis\<close>

lemma splitWhitespace_length: "length (splitWhitespace cur s) \<le> Suc (length s)"
proof (induction cur s rule: splitWhitespace.induct)
  case (1 cur)
  show ?case by simp
next
  case (2 cur c cs)
  have "length (dropWhile isSpace cs) \<le> length cs" by (rule length_dropWhile_le)
  with 2 show ?case by (auto simp: le_Suc_eq)
qed
lemma countFillers_filter:
  "fold (\<lambda>w fillerCount. if P w then fillerCount + 1 else fillerCount) words n =
     n + length (filter P words)"
  by (induction words arbitrary: n) simp_all
lemma vocabulary_pro_lower: "v \<in> set fillerWords_pro \<Longrightarrow> toLowerCase v = v"
  by (auto simp: fillerWords_pro_def toLowerCase_def toLowerChar_def)
lemma countFillers_tokens: "countFillers words = tokensAmong fillerWords_pro words"
proof -
  have "\<And>w. (toLowerCase w \<in> set fillerWords_pro) =
      (\<exists>v \<in> set fillerWords_pro. equalIgnoringCase w v)"
    unfolding equalIgnoringCase_def using vocabulary_pro_lower by force
  then show ?thesis
    by (simp add: countFillers_def tokensAmong_def countFillers_filter)
qed
lemma tokensAmong_le: "tokensAmong vocabulary words \<le> length words"
  by (simp add: tokensAmong_def)
lemma tokens_without_space:
  "w \<in> set (splitWhitespace cur s) \<Longrightarrow> \<forall>c \<in> set cur. \<not> isSpace c \<Longrightarrow>
     \<forall>c \<in> set w. \<not> isSpace c"
proof (induction cur s rule: splitWhitespace.induct)
  case (1 cur)
  then show ?case by simp
next
  case (2 cur c cs)
  then show ?case by (auto split: if_splits)
qed
lemma lower_space: "toLowerChar c = CHR '' '' \<Longrightarrow> c = CHR '' ''"
proof -
  assume "toLowerChar c = CHR '' ''"
  then have "(of_char (toLowerChar c) :: nat) = 32" by simp
  then have "(of_char c :: nat) = 32"
    unfolding code_toLowerChar by (simp split: if_splits)
  then have "(of_char c :: nat) = of_char CHR '' ''" by simp
  then show ?thesis unfolding of_char_eq_iff .
qed
lemma phrase_never_token:
  assumes "w \<in> set (split_ws tr)"
  shows "\<not> equalIgnoringCase w ''you know''"
proof
  assume "equalIgnoringCase w ''you know''"
  then have eq: "map toLowerChar w = ''you know''"
    by (simp add: equalIgnoringCase_def toLowerCase_def toLowerChar_def)
  have "length (map toLowerChar w) = 8" unfolding eq by simp
  then have len: "length w = 8" by simp
  have "map toLowerChar w ! 3 = CHR '' ''" unfolding eq by simp
  then have "toLowerChar (w ! 3) = CHR '' ''" using len by simp
  then have "w ! 3 = CHR '' ''" by (rule lower_space)
  moreover have "w ! 3 \<in> set w" by (rule nth_mem) (simp add: len)
  ultimately have "CHR '' '' \<in> set w" by simp
  moreover have "\<forall>c \<in> set w. \<not> isSpace c"
    using tokens_without_space [of w "[]" tr] assms by (simp add: split_ws_def)
  ultimately show False by (auto simp: isSpace_def)
qed


lemma last_dropWhile:
  assumes "dropWhile P xs \<noteq> []"
  shows "last (dropWhile P xs) = last xs"
proof -
  have "last (takeWhile P xs @ dropWhile P xs) = last (dropWhile P xs)"
    using assms by (rule last_appendR)
  then show ?thesis by simp
qed

lemma no_empty_token:
  "cur \<noteq> [] \<or> (s \<noteq> [] \<and> \<not> isSpace (hd s)) \<Longrightarrow> s = [] \<or> \<not> isSpace (last s) \<Longrightarrow>
     [] \<notin> set (splitWhitespace cur s)"
proof (induction cur s rule: splitWhitespace.induct)
  case (1 cur)
  then show ?case by simp
next
  case (2 cur c cs)
  show ?case
  proof (cases "isSpace c")
    case True
    with "2.prems" have cur: "cur \<noteq> []" by simp
    from True "2.prems"(2) have cs: "cs \<noteq> []" and lst: "\<not> isSpace (last cs)"
      by (auto split: if_splits)
    then have "last cs \<in> set cs" by simp
    with lst have d: "dropWhile isSpace cs \<noteq> []"
      unfolding dropWhile_eq_Nil_conv by blast
    then have "\<not> isSpace (hd (dropWhile isSpace cs))" by (rule hd_dropWhile)
    moreover have "\<not> isSpace (last (dropWhile isSpace cs))"
      using last_dropWhile [OF d] lst by simp
    ultimately have "[] \<notin> set (splitWhitespace [] (dropWhile isSpace cs))"
      using d by (intro "2.IH"(1) [OF True]) simp_all
    with True cur show ?thesis by simp
  next
    case False
    from "2.prems"(2) have "cs = [] \<or> \<not> isSpace (last cs)"
      by (auto split: if_splits)
    then have "[] \<notin> set (splitWhitespace (c # cur) cs)"
      by (intro "2.IH"(2) [OF False]) simp_all
    with False show ?thesis by simp
  qed
qed

lemma trim_trimmed: "trim s = [] \<or> trimmed (trim s)"
proof (cases "trim s = []")
  case True
  then show ?thesis by simp
next
  case False
  define t where "t = dropWhile isSpace s"
  define u where "u = dropWhile isSpace (rev t)"
  have trim: "trim s = rev u" by (simp add: trim_def t_def u_def)
  with False have u: "u \<noteq> []" by simp
  then have "\<not> isSpace (hd u)" unfolding u_def by (rule hd_dropWhile)
  then have last: "\<not> isSpace (last (rev u))" using u by (simp add: last_rev)
  have "rev t = takeWhile isSpace (rev t) @ u" by (simp add: u_def)
  then have "rev (rev t) = rev (takeWhile isSpace (rev t) @ u)" by (rule arg_cong)
  then have t: "t = rev u @ rev (takeWhile isSpace (rev t))" by simp
  then have "t \<noteq> []" using u by auto
  then have "\<not> isSpace (hd t)" unfolding t_def by (rule hd_dropWhile)
  moreover have "hd t = hd (rev u)" using t u by (metis hd_append2 rev_is_Nil_conv)
  ultimately have "\<not> isSpace (hd (rev u))" by simp
  with last u show ?thesis by (simp add: trim trimmed_def)
qed

lemma onresult_trimmed:
  "transcript_pro (onresult pieces st) = [] \<or> trimmed (transcript_pro (onresult pieces st))"
  by (simp add: onresult_def trim_trimmed)

lemma trimmed_tokens: "trimmed tr \<Longrightarrow> whitespaceTokens tr = split_ws tr"
proof -
  assume "trimmed tr"
  then have "[] \<notin> set (splitWhitespace [] tr)"
    by (intro no_empty_token) (simp_all add: trimmed_def)
  then have "\<forall>t \<in> set (split_ws tr). t \<noteq> []"
    unfolding split_ws_def by metis
  then show ?thesis
    unfolding whitespaceTokens_def by (simp add: filter_id_conv)
qed

lemma lower_chars:
  "toLowerChar CHR ''U'' = CHR ''u''" "toLowerChar CHR ''m'' = CHR ''m''"
  "toLowerChar CHR ''w'' = CHR ''w''" "toLowerChar CHR ''e'' = CHR ''e''"
  "toLowerChar CHR ''l'' = CHR ''l''" "toLowerChar CHR ''u'' = CHR ''u''"
  "toLowerChar CHR ''h'' = CHR ''h''" "toLowerChar CHR ''i'' = CHR ''i''"
  "toLowerChar CHR ''k'' = CHR ''k''" "toLowerChar CHR ''y'' = CHR ''y''"
  "toLowerChar CHR ''o'' = CHR ''o''" "toLowerChar CHR ''n'' = CHR ''n''"
  "toLowerChar CHR ''a'' = CHR ''a''" "toLowerChar CHR ''c'' = CHR ''c''"
  "toLowerChar CHR ''t'' = CHR ''t''" "toLowerChar CHR '' '' = CHR '' ''"
  unfolding char_eq_code [of "toLowerChar c" for c] code_toLowerChar by simp_all

lemma tone_in_tokens:
  assumes "length tr < 2 ^ 32"
  shows "tone (analysisReport tr response) =
           (if length (split_ws tr) < 10 * tokensAmong fillerWords_pro (split_ws tr)
            then ''Hesitant''
            else if 15 < length (split_ws tr) then ''Confident''
            else ''Neutral'') \<and>
         fillerCount (analysisReport tr response) = tokensAmong fillerWords_pro (split_ws tr)"
proof -
  have "length (split_ws tr) \<le> Suc (length tr)"
    unfolding split_ws_def by (rule splitWhitespace_length)
  then have n: "length (split_ws tr) < 2 ^ 33" using assms by simp
  have k: "tokensAmong fillerWords_pro (split_ws tr) \<le> length (split_ws tr)"
    by (rule tokensAmong_le)
  show ?thesis
    by (simp add: analysisReport_def Let_def toneOf_def countFillers_tokens
        exceeds_tenth [OF k n])
qed

lemma more_lower_chars:
  "toLowerChar CHR ''b'' = CHR ''b''" "toLowerChar CHR ''s'' = CHR ''s''"
  "toLowerChar CHR ''r'' = CHR ''r''"
  unfolding char_eq_code [of "toLowerChar c" for c] code_toLowerChar by simp_all

lemmas evaluate_tokens =
  tokensAmong_def fillerTokens_def fillerWords_pro_def equalIgnoringCase_def toLowerCase_def
  lower_chars more_lower_chars


section \<open>The grammar request\<close>

lemma mapMatches_None:
  "mapMatches tr ms = None \<longleftrightarrow> \<not> list_all (\<lambda>m. m_replacements m \<noteq> None) ms"
  by (induction ms)
    (auto simp: toSuggestion_def firstReplacement_def split: option.splits list.splits)

lemma mapMatches_Some:
  "list_all (\<lambda>m. m_replacements m \<noteq> None) ms \<Longrightarrow>
   mapMatches tr ms = Some (map (\<lambda>m. \<lparr> g_error = substring tr (toInteger (m_offset m))
                                 (toInteger (addNumbers (m_offset m) (m_length m))),
                     g_suggestion =
                       (case m_replacements m of
                          Some (r # rs) \<Rightarrow>
                            (case r_value r of
                               Some v \<Rightarrow> if v = [] then Dash else Replacement v
                             | None \<Rightarrow> Dash)
                        | _ \<Rightarrow> Dash),
                     g_message = m_message m \<rparr>) ms)"
  by (induction ms)
    (auto simp: toSuggestion_def firstReplacement_def split: option.splits list.splits)

lemma substring_span:
  "0 \<le> off \<Longrightarrow> 0 \<le> len \<Longrightarrow>
     substring tr off (off + len) = take (nat len) (drop (nat off) tr)"
proof -
  assume off: "0 \<le> off" and len: "0 \<le> len"
  show ?thesis
  proof (cases "off + len \<le> int (length tr)")
    case True
    with off len show ?thesis
      by (simp add: substring_def Let_def min_def max_def)
  next
    case False
    show ?thesis
    proof (cases "off \<le> int (length tr)")
      case True
      with False off len show ?thesis
        by (simp add: substring_def Let_def min_def max_def nat_diff_distrib)
    next
      case False
      with off len show ?thesis
        by (simp add: substring_def Let_def min_def max_def)
    qed
  qed
qed

lemma thrown_gives_none:
  "grammarTry tr response = None \<Longrightarrow> grammarSuggestions (analysisReport tr response) = []"
  by (simp add: analysisReport_def Let_def grammarCheck_def)

lemma completed_gives_list:
  "grammarTry tr response = Some gs \<Longrightarrow> grammarSuggestions (analysisReport tr response) = gs"
  by (simp add: analysisReport_def Let_def grammarCheck_def)


section \<open>The score stays between 0 and 10\<close>

text \<open>
  Claim C1. The score of the base scorer and the fluency score of the extended analysis are
  integers between 0 and 10, for every text, duration, transcript and outcome of the grammar
  request. The base score starts at 10, no step of the scorer raises it (the last four
  conjuncts: the filler step, the three checks that deduct), and the final clamp lifts a
  negative score to 0.
\<close>

theorem score_range:
  "0 \<le> score (generateSuggestions text duration) \<and>
   score (generateSuggestions text duration) \<le> 10 \<and>
   0 \<le> fluencyScore (analysisReport tr response) \<and>
   fluencyScore (analysisReport tr response) \<le> 10 \<and>
   score (fillerStep text word st) \<le> score st \<and>
   score (shortSpeechCheck text st) \<le> score st \<and>
   score (sentenceStructureCheck text st) \<le> score st \<and>
   score (durationEncouragement duration st) \<le> score st"
proof -
  have "0 \<le> (\<Sum>w\<leftarrow>fillerWords. fillerDeduction (matchCount w text))"
    by (rule sum_fillerDeduction_nonneg)
  then have base: "0 \<le> score (generateSuggestions text duration) \<and>
      score (generateSuggestions text duration) \<le> 10"
    unfolding generateSuggestions_score by (simp split: if_splits)
  have extended: "0 \<le> fluencyScore (analysisReport tr response) \<and>
      fluencyScore (analysisReport tr response) \<le> 10"
    by (simp add: analysisReport_def fluencyScoreOf_def Let_def)
  have steps: "score (fillerStep text word st) \<le> score st \<and>
      score (shortSpeechCheck text st) \<le> score st \<and>
      score (sentenceStructureCheck text st) \<le> score st \<and>
      score (durationEncouragement duration st) \<le> score st"
    by (simp add: fillerStep_def Let_def shortSpeechCheck_def sentenceStructureCheck_def
        durationEncouragement_def)
  from base extended steps show ?thesis by simp
qed


section \<open>The fallback line\<close>

text \<open>
  Claim C2, as the code has it. The feedback is the single line "Great job! Fluent and clear."
  if and only if no check has produced a line: no word of the vocabulary occurs in the
  text, the text has at least 15 pieces when split at the space character, it holds one
  of \<open>.\<close>, \<open>?\<close> and \<open>!\<close>, it does not hold the string "good", and the duration is at least 30.
  The vocabulary tip deducts nothing, yet its line keeps the fallback away.
\<close>

theorem fallback_iff:
  "feedback (generateSuggestions text duration) = [GreatJobMsg] \<longleftrightarrow>
     list_all (\<lambda>w. wholeWordOccurrences w text = 0) fillerWords \<and>
     15 \<le> length (split_space text) \<and>
     hasSentenceEnding text \<and>
     \<not> includes_str text ''good'' \<and>
     30 \<le> duration"
proof -
  define body where "body = fillerMessagesFor text fillerWords @
      (if length (split_space text) < 15 then [ShortSpeechMsg] else []) @
      (if hasSentenceEnding text then [] else [SentenceEndingMsg]) @
      (if includes_str text ''good'' then [VocabularyTip] else []) @
      (if duration < 30 then [DurationMsg] else [])"
  have fb: "feedback (generateSuggestions text duration) =
      (if body = [] then [GreatJobMsg] else body)"
    by (simp add: generateSuggestions_feedback body_def Let_def)
  have "GreatJobMsg \<notin> set body"
    by (auto simp: body_def dest: fillerMessagesFor_set)
  then have "body \<noteq> [GreatJobMsg]" by auto
  then have "feedback (generateSuggestions text duration) = [GreatJobMsg] \<longleftrightarrow> body = []"
    by (simp add: fb)
  also have "body = [] \<longleftrightarrow>
      list_all (\<lambda>w. matchCount w text = 0) fillerWords \<and>
      15 \<le> length (split_space text) \<and> hasSentenceEnding text \<and>
      \<not> includes_str text ''good'' \<and> 30 \<le> duration"
    by (auto simp: body_def fillerMessagesFor_empty)
  finally show ?thesis unfolding vocabulary_silent .
qed

text \<open>The equivalence at a fluent text of fifteen words: the feedback is the fallback line.\<close>

theorem fallback_iff_witness:
  "feedback (generateSuggestions ''a a a a a a a a a a a a a a a.'' 30) = [GreatJobMsg]"
  using fallback_iff [of "''a a a a a a a a a a a a a a a.''" 30]
  by (simp add: fillerWords_def fluent_counts fluent_checks)

text \<open>
  Without the condition on "good" the equivalence fails: in this text of fifteen words no
  condition that deducts holds, and the feedback is the vocabulary tip.
\<close>

theorem fallback_iff_counterexample:
  "wholeWordOccurrences ''uh'' ''good a a a a a a a a a a a a a a.'' = 0 \<and>
   wholeWordOccurrences ''um'' ''good a a a a a a a a a a a a a a.'' = 0 \<and>
   wholeWordOccurrences ''like'' ''good a a a a a a a a a a a a a a.'' = 0 \<and>
   wholeWordOccurrences ''you know'' ''good a a a a a a a a a a a a a a.'' = 0 \<and>
   wholeWordOccurrences ''actually'' ''good a a a a a a a a a a a a a a.'' = 0 \<and>
   wholeWordOccurrences ''basically'' ''good a a a a a a a a a a a a a a.'' = 0 \<and>
   wholeWordOccurrences ''literally'' ''good a a a a a a a a a a a a a a.'' = 0 \<and>
   15 \<le> length (split_space ''good a a a a a a a a a a a a a a.'') \<and>
   15 \<le> length (whitespaceTokens ''good a a a a a a a a a a a a a a.'') \<and>
   hasSentenceEnding ''good a a a a a a a a a a a a a a.'' \<and>
   (30 :: int) \<le> 30 \<and>
   feedback (generateSuggestions ''good a a a a a a a a a a a a a a.'' 30) = [VocabularyTip] \<and>
   feedback (generateSuggestions ''good a a a a a a a a a a a a a a.'' 30) \<noteq> [GreatJobMsg]"
  by (simp add: evaluate_scorer good_counts good_checks)


section \<open>Filler words\<close>

text \<open>
  Claim C3, as the code has it. For a word of the vocabulary that occurs in the text, the
  feedback holds exactly one filler line about it, with its number of occurrences, and none
  about any other word; the score is 10 less the sum, over the vocabulary, of 2 for a word
  with at least three occurrences and 1 for a word with one or two, less the deductions of
  the other checks, and not below 0. In particular, when "um" occurs exactly three times and
  no other word of the vocabulary does, the text has at least 15 pieces when split at the
  space character, it holds \<open>.\<close>, \<open>?\<close> or \<open>!\<close> and not "good", and the duration is
  at least 30, then the score is 8 and the feedback is the one filler line about "um".
\<close>

theorem filler_deductions:
  "filter (isFillerMsgFor w) (feedback (generateSuggestions text duration)) =
     (if w \<in> set fillerWords \<and> 0 < wholeWordOccurrences w text
      then [FillerMsg w (wholeWordOccurrences w text)] else []) \<and>
   score (generateSuggestions text duration) =
     max 0 (10 - (\<Sum>w\<leftarrow>fillerWords. fillerDeduction (wholeWordOccurrences w text))
               - (if length (split_space text) < 15 then 2 else 0)
               - (if hasSentenceEnding text then 0 else 1)
               - (if duration < 30 then 1 else 0)) \<and>
   (wholeWordOccurrences ''um'' text = 3 \<and>
    (\<forall>v \<in> set fillerWords. v \<noteq> ''um'' \<longrightarrow> wholeWordOccurrences v text = 0) \<and>
    15 \<le> length (split_space text) \<and> hasSentenceEnding text \<and>
    \<not> includes_str text ''good'' \<and> 30 \<le> duration \<longrightarrow>
    score (generateSuggestions text duration) = 8 \<and>
    feedback (generateSuggestions text duration) = [FillerMsg ''um'' 3])"
proof (intro conjI impI)
  show "filter (isFillerMsgFor w) (feedback (generateSuggestions text duration)) =
     (if w \<in> set fillerWords \<and> 0 < wholeWordOccurrences w text
      then [FillerMsg w (wholeWordOccurrences w text)] else [])"
    by (cases "w \<in> set fillerWords") (simp_all add: filler_lines vocabulary_count)
  show "score (generateSuggestions text duration) =
     max 0 (10 - (\<Sum>w\<leftarrow>fillerWords. fillerDeduction (wholeWordOccurrences w text))
               - (if length (split_space text) < 15 then 2 else 0)
               - (if hasSentenceEnding text then 0 else 1)
               - (if duration < 30 then 1 else 0))"
    by (rule score_in_occurrences)
next
  assume a: "wholeWordOccurrences ''um'' text = 3 \<and>
    (\<forall>v \<in> set fillerWords. v \<noteq> ''um'' \<longrightarrow> wholeWordOccurrences v text = 0) \<and>
    15 \<le> length (split_space text) \<and> hasSentenceEnding text \<and>
    \<not> includes_str text ''good'' \<and> 30 \<le> duration"
  then have others: "wholeWordOccurrences ''uh'' text = 0"
    "wholeWordOccurrences ''like'' text = 0" "wholeWordOccurrences ''you know'' text = 0"
    "wholeWordOccurrences ''actually'' text = 0" "wholeWordOccurrences ''basically'' text = 0"
    "wholeWordOccurrences ''literally'' text = 0"
    by (simp_all add: fillerWords_def)
  from a others show "score (generateSuggestions text duration) = 8"
    by (simp add: evaluate_scorer)
  from a others show "feedback (generateSuggestions text duration) = [FillerMsg ''um'' 3]"
    by (simp add: evaluate_scorer)
qed

text \<open>The instance at a text of fifteen words on one line, three of them "um".\<close>

theorem filler_deductions_witness:
  "wholeWordOccurrences ''um'' ''um a um a UM a a a a a a a a a a.'' = 3 \<and>
   wholeWordOccurrences ''uh'' ''um a um a UM a a a a a a a a a a.'' = 0 \<and>
   wholeWordOccurrences ''like'' ''um a um a UM a a a a a a a a a a.'' = 0 \<and>
   wholeWordOccurrences ''you know'' ''um a um a UM a a a a a a a a a a.'' = 0 \<and>
   wholeWordOccurrences ''actually'' ''um a um a UM a a a a a a a a a a.'' = 0 \<and>
   wholeWordOccurrences ''basically'' ''um a um a UM a a a a a a a a a a.'' = 0 \<and>
   wholeWordOccurrences ''literally'' ''um a um a UM a a a a a a a a a a.'' = 0 \<and>
   15 \<le> length (split_space ''um a um a UM a a a a a a a a a a.'') \<and>
   hasSentenceEnding ''um a um a UM a a a a a a a a a a.'' \<and>
   \<not> includes_str ''um a um a UM a a a a a a a a a a.'' ''good'' \<and>
   (30 :: int) \<le> 30 \<and>
   score (generateSuggestions ''um a um a UM a a a a a a a a a a.'' 30) = 8 \<and>
   feedback (generateSuggestions ''um a um a UM a a a a a a a a a a.'' 30) = [FillerMsg ''um'' 3]"
proof -
  have hyp: "wholeWordOccurrences ''um'' ''um a um a UM a a a a a a a a a a.'' = 3 \<and>
    (\<forall>v \<in> set fillerWords. v \<noteq> ''um'' \<longrightarrow> wholeWordOccurrences v ''um a um a UM a a a a a a a a a a.'' = 0) \<and>
    15 \<le> length (split_space ''um a um a UM a a a a a a a a a a.'') \<and> hasSentenceEnding ''um a um a UM a a a a a a a a a a.'' \<and>
    \<not> includes_str ''um a um a UM a a a a a a a a a a.'' ''good'' \<and> (30 :: int) \<le> 30"
    by (simp add: fillerWords_def um_counts um_checks)
  have "score (generateSuggestions ''um a um a UM a a a a a a a a a a.'' 30) = 8 \<and>
    feedback (generateSuggestions ''um a um a UM a a a a a a a a a a.'' 30) = [FillerMsg ''um'' 3]"
    using filler_deductions [of "''um''" "''um a um a UM a a a a a a a a a a.''" 30] hyp by blast
  then show ?thesis
    by (simp add: um_counts um_checks)
qed

text \<open>
  With the fifteen tokens counted between any whitespace the instance fails: these fifteen
  tokens stand on fifteen lines, the text holds no space, and the length check deducts 2 more.
\<close>

theorem filler_deductions_counterexample:
  "wholeWordOccurrences ''um'' ''um\<newline>um\<newline>um\<newline>a\<newline>a\<newline>a\<newline>a\<newline>a\<newline>a\<newline>a\<newline>a\<newline>a\<newline>a\<newline>a\<newline>a.'' = 3 \<and>
   wholeWordOccurrences ''uh'' ''um\<newline>um\<newline>um\<newline>a\<newline>a\<newline>a\<newline>a\<newline>a\<newline>a\<newline>a\<newline>a\<newline>a\<newline>a\<newline>a\<newline>a.'' = 0 \<and>
   wholeWordOccurrences ''like'' ''um\<newline>um\<newline>um\<newline>a\<newline>a\<newline>a\<newline>a\<newline>a\<newline>a\<newline>a\<newline>a\<newline>a\<newline>a\<newline>a\<newline>a.'' = 0 \<and>
   wholeWordOccurrences ''you know'' ''um\<newline>um\<newline>um\<newline>a\<newline>a\<newline>a\<newline>a\<newline>a\<newline>a\<newline>a\<newline>a\<newline>a\<newline>a\<newline>a\<newline>a.'' = 0 \<and>
   wholeWordOccurrences ''actually'' ''um\<newline>um\<newline>um\<newline>a\<newline>a\<newline>a\<newline>a\<newline>a\<newline>a\<newline>a\<newline>a\<newline>a\<newline>a\<newline>a\<newline>a.'' = 0 \<and>
   wholeWordOccurrences ''basically'' ''um\<newline>um\<newline>um\<newline>a\<newline>a\<newline>a\<newline>a\<newline>a\<newline>a\<newline>a\<newline>a\<newline>a\<newline>a\<newline>a\<newline>a.'' = 0 \<and>
   wholeWordOccurrences ''literally'' ''um\<newline>um\<newline>um\<newline>a\<newline>a\<newline>a\<newline>a\<newline>a\<newline>a\<newline>a\<newline>a\<newline>a\<newline>a\<newline>a\<newline>a.'' = 0 \<and>
   15 \<le> length (whitespaceTokens ''um\<newline>um\<newline>um\<newline>a\<newline>a\<newline>a\<newline>a\<newline>a\<newline>a\<newline>a\<newline>a\<newline>a\<newline>a\<newline>a\<newline>a.'') \<and>
   hasSentenceEnding ''um\<newline>um\<newline>um\<newline>a\<newline>a\<newline>a\<newline>a\<newline>a\<newline>a\<newline>a\<newline>a\<newline>a\<newline>a\<newline>a\<newline>a.'' \<and>
   \<not> includes_str ''um\<newline>um\<newline>um\<newline>a\<newline>a\<newline>a\<newline>a\<newline>a\<newline>a\<newline>a\<newline>a\<newline>a\<newline>a\<newline>a\<newline>a.'' ''good'' \<and>
   (30 :: int) \<le> 30 \<and>
   score (generateSuggestions ''um\<newline>um\<newline>um\<newline>a\<newline>a\<newline>a\<newline>a\<newline>a\<newline>a\<newline>a\<newline>a\<newline>a\<newline>a\<newline>a\<newline>a.'' 30) = 6 \<and>
   feedback (generateSuggestions ''um\<newline>um\<newline>um\<newline>a\<newline>a\<newline>a\<newline>a\<newline>a\<newline>a\<newline>a\<newline>a\<newline>a\<newline>a\<newline>a\<newline>a.'' 30) = [FillerMsg ''um'' 3, ShortSpeechMsg]"
  by (simp add: evaluate_scorer um_lines_counts um_lines_checks)


section \<open>The length check\<close>

text \<open>
  Claim C4, as the code has it. The text is split at the space character, so the number of
  pieces is one more than the number of spaces in it. The feedback holds the line "Try
  speaking in longer sentences with more details." once when there are fewer than 15
  pieces and not at all otherwise, and the score loses 2 points exactly in the first case.
\<close>

theorem short_speech_check:
  "length (split_space text) = Suc (count_list text CHR '' '') \<and>
   count_list (feedback (generateSuggestions text duration)) ShortSpeechMsg =
     (if length (split_space text) < 15 then 1 else 0) \<and>
   score (generateSuggestions text duration) =
     max 0 (10 - (\<Sum>w\<leftarrow>fillerWords. fillerDeduction (wholeWordOccurrences w text))
               - (if length (split_space text) < 15 then 2 else 0)
               - (if hasSentenceEnding text then 0 else 1)
               - (if duration < 30 then 1 else 0))"
proof (intro conjI)
  show "length (split_space text) = Suc (count_list text CHR '' '')"
    by (simp add: split_space_def splitOn_length)
  show "count_list (feedback (generateSuggestions text duration)) ShortSpeechMsg =
      (if length (split_space text) < 15 then 1 else 0)"
    by (simp add: generateSuggestions_feedback Let_def no_short_line_among_fillers)
  show "score (generateSuggestions text duration) =
     max 0 (10 - (\<Sum>w\<leftarrow>fillerWords. fillerDeduction (wholeWordOccurrences w text))
               - (if length (split_space text) < 15 then 2 else 0)
               - (if hasSentenceEnding text then 0 else 1)
               - (if duration < 30 then 1 else 0))"
    by (rule score_in_occurrences)
qed

text \<open>
  Tokens separated by other whitespace do not count: a text of fifteen tokens on fifteen
  lines gets the line and the deduction.
\<close>

theorem short_speech_check_counterexample:
  "15 \<le> length (whitespaceTokens ''a\<newline>a\<newline>a\<newline>a\<newline>a\<newline>a\<newline>a\<newline>a\<newline>a\<newline>a\<newline>a\<newline>a\<newline>a\<newline>a\<newline>a.'') \<and>
   feedback (generateSuggestions ''a\<newline>a\<newline>a\<newline>a\<newline>a\<newline>a\<newline>a\<newline>a\<newline>a\<newline>a\<newline>a\<newline>a\<newline>a\<newline>a\<newline>a.'' 30) = [ShortSpeechMsg] \<and>
   score (generateSuggestions ''a\<newline>a\<newline>a\<newline>a\<newline>a\<newline>a\<newline>a\<newline>a\<newline>a\<newline>a\<newline>a\<newline>a\<newline>a\<newline>a\<newline>a.'' 30) = 8"
  by (simp add: evaluate_scorer lines_counts lines_checks)


section \<open>The histogram of filler words\<close>

text \<open>
  Claim C5. For every text, the filler histogram holds, for each word of the vocabulary
  that occurs in the text, the number of its case-insensitive whole-word occurrences, and
  no entry for any other word; no stored count is 0.
\<close>

theorem histogram_counts:
  "fillerStats (generateSuggestions text duration) w =
     (if w \<in> set fillerWords \<and> 0 < wholeWordOccurrences w text
      then Some (wholeWordOccurrences w text) else None) \<and>
   fillerStats (generateSuggestions text duration) w \<noteq> Some 0"
proof (cases "w \<in> set fillerWords")
  case True
  then show ?thesis
    by (simp add: generateSuggestions_stats vocabulary_count)
next
  case False
  then show ?thesis
    by (simp add: generateSuggestions_stats)
qed


section \<open>The order of the feedback lines\<close>

text \<open>
  Claim C6. The feedback lines come in a fixed order: the filler lines in the order of the
  vocabulary (uh, um, like, you know, actually, basically, literally), then the line of the
  length check, of the sentence-ending check, the vocabulary tip and the line of the
  duration check, and the fallback line only when there is no other line.
\<close>

theorem feedback_order:
  "feedback (generateSuggestions text duration) =
     (let fillers = concat (map (\<lambda>w. if 0 < matchCount w text
                                       then [FillerMsg w (matchCount w text)] else [])
                     [''uh'', ''um'', ''like'', ''you know'', ''actually'', ''basically'',
                      ''literally'']);
          lengthCheck = (if length (split_space text) < 15 then [ShortSpeechMsg] else []);
          endingCheck = (if hasSentenceEnding text then [] else [SentenceEndingMsg]);
          vocabulary = (if includes_str text ''good'' then [VocabularyTip] else []);
          durationCheck = (if duration < 30 then [DurationMsg] else []);
          checks = fillers @ lengthCheck @ endingCheck @ vocabulary @ durationCheck
      in checks @ (if checks = [] then [GreatJobMsg] else []))"
  by (simp add: generateSuggestions_feedback fillerMessagesFor_def fillerWords_def Let_def)


section \<open>The tone label\<close>

text \<open>
  Claim C7, as the code has it. For a transcript of fewer than \<open>2^32\<close> characters (no
  JavaScript engine holds a longer string), the tone is "Hesitant" exactly when the
  filler-word count is more than a tenth of the number of tokens, that is when ten times
  the count exceeds that number; otherwise it is "Confident" exactly when there are more
  than 15 tokens, and otherwise "Neutral". The filler-word count is the number of tokens
  that equal, when case is ignored, a word of the list of this analysis: uh, um, like, you
  know, actually. No token equals the phrase "you know", so the phrase is never counted.
  The tokens are the pieces of the transcript between runs of whitespace; for a transcript
  as the recogniser stores it, trimmed and not empty (\<open>onresult_trimmed\<close>), they are its
  maximal runs of characters that are not whitespace.
\<close>

theorem tone_label:
  assumes "length tr < 2 ^ 32"
  shows "tone (analysisReport tr response) =
           (if length (split_ws tr) <
                 10 * tokensAmong [''uh'', ''um'', ''like'', ''you know'', ''actually'']
                        (split_ws tr)
            then ''Hesitant''
            else if 15 < length (split_ws tr) then ''Confident''
            else ''Neutral'') \<and>
         fillerCount (analysisReport tr response) =
           tokensAmong [''uh'', ''um'', ''like'', ''you know'', ''actually''] (split_ws tr) \<and>
         (\<forall>w \<in> set (split_ws tr). \<not> equalIgnoringCase w ''you know'') \<and>
         (trimmed tr \<longrightarrow> split_ws tr = whitespaceTokens tr)"
proof (intro conjI ballI impI)
  note core = tone_in_tokens [OF assms, of response, unfolded fillerWords_pro_def]
  from core show "tone (analysisReport tr response) =
           (if length (split_ws tr) <
                 10 * tokensAmong [''uh'', ''um'', ''like'', ''you know'', ''actually'']
                        (split_ws tr)
            then ''Hesitant''
            else if 15 < length (split_ws tr) then ''Confident''
            else ''Neutral'')"
    by (rule conjunct1)
  from core show "fillerCount (analysisReport tr response) =
      tokensAmong [''uh'', ''um'', ''like'', ''you know'', ''actually''] (split_ws tr)"
    by (rule conjunct2)
next
  fix w assume "w \<in> set (split_ws tr)"
  then show "\<not> equalIgnoringCase w ''you know''" by (rule phrase_never_token)
next
  assume "trimmed tr"
  then show "split_ws tr = whitespaceTokens tr" by (simp add: trimmed_tokens)
qed

text \<open>The statement at the transcript "Um well": one filler among two tokens, "Hesitant".\<close>

theorem tone_label_witness:
  "length ''Um well'' < (2 :: nat) ^ 32 \<and>
   trimmed ''Um well'' \<and>
   whitespaceTokens ''Um well'' = [''Um'', ''well''] \<and>
   fillerCount (analysisReport ''Um well'' JsonRejected) = 1 \<and>
   tone (analysisReport ''Um well'' JsonRejected) = ''Hesitant''"
proof -
  have len: "length ''Um well'' < (2 :: nat) ^ 32" by simp
  have tr: "trimmed ''Um well''" by (simp add: trimmed_def isSpace_def)
  have ws: "split_ws ''Um well'' = [''Um'', ''well'']"
    by (simp add: split_ws_def isSpace_def)
  have ft: "tokensAmong [''uh'', ''um'', ''like'', ''you know'', ''actually'']
      [''Um'', ''well''] = 1"
    by (simp add: evaluate_tokens)
  from tone_label [OF len, of JsonRejected] tr ws ft show ?thesis by simp
qed

text \<open>
  With the closed vocabulary of seven words the statement fails: both tokens of "basically
  literally" are words of that vocabulary, more than a tenth of the two tokens, and the
  analysis counts no filler and gives "Neutral".
\<close>

theorem tone_label_counterexample:
  "trimmed ''basically literally'' \<and>
   whitespaceTokens ''basically literally'' = [''basically'', ''literally''] \<and>
   fillerTokens (whitespaceTokens ''basically literally'') = 2 \<and>
   fillerCount (analysisReport ''basically literally'' JsonRejected) = 0 \<and>
   tone (analysisReport ''basically literally'' JsonRejected) = ''Neutral''"
proof -
  have len: "length ''basically literally'' < (2 :: nat) ^ 32" by simp
  have tr: "trimmed ''basically literally''" by (simp add: trimmed_def isSpace_def)
  have ws: "split_ws ''basically literally'' = [''basically'', ''literally'']"
    by (simp add: split_ws_def isSpace_def)
  have wt: "whitespaceTokens ''basically literally'' = [''basically'', ''literally'']"
    using trimmed_tokens [OF tr] ws by simp
  have spec: "fillerTokens [''basically'', ''literally''] = 2"
    by (simp add: evaluate_tokens)
  have code: "tokensAmong fillerWords_pro [''basically'', ''literally''] = 0"
    by (simp add: evaluate_tokens)
  from tone_in_tokens [OF len, of JsonRejected] tr ws wt spec code show ?thesis by simp
qed


section \<open>The grammar suggestions\<close>

text \<open>
  Claim C8, as the code has it. Whenever the \<open>try\<close> block throws, the list of grammar
  suggestions of the report is empty and the report is still stored as the feedback; it
  throws when \<open>fetch\<close> rejects, when the body is not JSON and when the body holds no
  \<open>matches\<close>. The fluency score is, for every outcome of the request, the one of a request
  that returns no match. When a body is parsed and every match holds \<open>replacements\<close>, the
  suggestions are the matches in their order, each with the substring of the transcript from
  \<open>offset\<close> to \<open>offset + length\<close> as the error span, the value of the first replacement, or the
  placeholder when there is no replacement or its value is missing or empty, as the
  suggestion, and the message of the match (a missing number reads as 0, a missing message
  stays missing). For an offset and a length that are not negative, that substring is the
  \<open>length\<close> characters of the transcript from position \<open>offset\<close> on (as many as the transcript
  has).
\<close>

theorem grammar_adapter:
  "(grammarTry tr response = None \<longrightarrow>
      grammarSuggestions (analysisReport tr response) = [] \<and>
      (tr \<noteq> [] \<longrightarrow>
         feedback_pro (analyzeTranscript response now (st\<lparr>transcript_pro := tr\<rparr>)) =
           Some (analysisReport tr response))) \<and>
   grammarTry tr FetchRejected = None \<and>
   grammarTry tr JsonRejected = None \<and>
   grammarTry tr (Parsed None) = None \<and>
   fluencyScore (analysisReport tr response) =
     fluencyScore (analysisReport tr (Parsed (Some []))) \<and>
   (list_all (\<lambda>m. m_replacements m \<noteq> None) ms \<longrightarrow>
      grammarSuggestions (analysisReport tr (Parsed (Some ms))) = map (\<lambda>m. \<lparr> g_error = substring tr (toInteger (m_offset m))
                                 (toInteger (addNumbers (m_offset m) (m_length m))),
                     g_suggestion =
                       (case m_replacements m of
                          Some (r # rs) \<Rightarrow>
                            (case r_value r of
                               Some v \<Rightarrow> if v = [] then Dash else Replacement v
                             | None \<Rightarrow> Dash)
                        | _ \<Rightarrow> Dash),
                     g_message = m_message m \<rparr>) ms) \<and>
   (0 \<le> off \<and> 0 \<le> len \<longrightarrow>
      substring tr (toInteger (Some off)) (toInteger (addNumbers (Some off) (Some len))) =
        take (nat len) (drop (nat off) tr))"
proof (intro conjI impI)
  assume "grammarTry tr response = None"
  then show "grammarSuggestions (analysisReport tr response) = []"
    by (rule thrown_gives_none)
next
  assume "tr \<noteq> []"
  then show "feedback_pro (analyzeTranscript response now (st\<lparr>transcript_pro := tr\<rparr>)) =
      Some (analysisReport tr response)"
    by (simp add: analyzeTranscript_def analyzeStart_def analyzeResume_def Let_def)
next
  show "grammarTry tr FetchRejected = None" "grammarTry tr JsonRejected = None"
    "grammarTry tr (Parsed None) = None"
    by (simp_all add: grammarTry_def)
next
  show "fluencyScore (analysisReport tr response) =
      fluencyScore (analysisReport tr (Parsed (Some [])))"
    by (simp add: analysisReport_def Let_def)
next
  assume "list_all (\<lambda>m. m_replacements m \<noteq> None) ms"
  then have "grammarTry tr (Parsed (Some ms)) = Some (map (\<lambda>m. \<lparr> g_error = substring tr (toInteger (m_offset m))
                                 (toInteger (addNumbers (m_offset m) (m_length m))),
                     g_suggestion =
                       (case m_replacements m of
                          Some (r # rs) \<Rightarrow>
                            (case r_value r of
                               Some v \<Rightarrow> if v = [] then Dash else Replacement v
                             | None \<Rightarrow> Dash)
                        | _ \<Rightarrow> Dash),
                     g_message = m_message m \<rparr>) ms)"
    by (simp add: grammarTry_def mapMatches_Some)
  then show "grammarSuggestions (analysisReport tr (Parsed (Some ms))) = map (\<lambda>m. \<lparr> g_error = substring tr (toInteger (m_offset m))
                                 (toInteger (addNumbers (m_offset m) (m_length m))),
                     g_suggestion =
                       (case m_replacements m of
                          Some (r # rs) \<Rightarrow>
                            (case r_value r of
                               Some v \<Rightarrow> if v = [] then Dash else Replacement v
                             | None \<Rightarrow> Dash)
                        | _ \<Rightarrow> Dash),
                     g_message = m_message m \<rparr>) ms"
    by (rule completed_gives_list)
next
  assume "0 \<le> off \<and> 0 \<le> len"
  then show "substring tr (toInteger (Some off)) (toInteger (addNumbers (Some off) (Some len))) =
      take (nat len) (drop (nat off) tr)"
    by (simp add: toInteger_def addNumbers_def substring_span)
qed

text \<open>A rejected request, and a request that returns one match for "I has a apple".\<close>

theorem grammar_adapter_witness:
  "grammarTry ''I has a apple'' FetchRejected = None \<and>
   grammarSuggestions (analysisReport ''I has a apple'' FetchRejected) = [] \<and>
   list_all (\<lambda>m. m_replacements m \<noteq> None) [\<lparr>m_offset = Some 2, m_length = Some 3, m_message = Some ''Use have'', m_replacements = Some [\<lparr>r_value = Some ''have''\<rparr>]\<rparr>] \<and>
   grammarSuggestions (analysisReport ''I has a apple'' (Parsed (Some [\<lparr>m_offset = Some 2, m_length = Some 3, m_message = Some ''Use have'', m_replacements = Some [\<lparr>r_value = Some ''have''\<rparr>]\<rparr>]))) =
     [\<lparr>g_error = ''has'', g_suggestion = Replacement ''have'',
       g_message = Some ''Use have''\<rparr>] \<and>
   (0 :: int) \<le> 2 \<and> (0 :: int) \<le> 3 \<and>
   substring ''I has a apple'' (toInteger (Some 2)) (toInteger (addNumbers (Some 2) (Some 3))) =
     ''has''"
proof -
  note adapter = grammar_adapter [where response = FetchRejected and tr = "''I has a apple''"
      and ms = "[\<lparr>m_offset = Some 2, m_length = Some 3, m_message = Some ''Use have'', m_replacements = Some [\<lparr>r_value = Some ''have''\<rparr>]\<rparr>]" and off = 2 and len = 3]
  have thrown: "grammarTry ''I has a apple'' FetchRejected = None"
    by (simp add: grammarTry_def)
  have complete: "list_all (\<lambda>m. m_replacements m \<noteq> None) [\<lparr>m_offset = Some 2, m_length = Some 3, m_message = Some ''Use have'', m_replacements = Some [\<lparr>r_value = Some ''have''\<rparr>]\<rparr>]" by simp
  have span: "(0 :: int) \<le> 2 \<and> (0 :: int) \<le> 3" by simp
  from adapter thrown
  have none: "grammarSuggestions (analysisReport ''I has a apple'' FetchRejected) = []"
    by blast
  from adapter span
  have sub: "substring ''I has a apple'' (toInteger (Some 2))
      (toInteger (addNumbers (Some 2) (Some 3))) = ''has''"
    by simp
  from adapter complete
  have "grammarSuggestions (analysisReport ''I has a apple'' (Parsed (Some [\<lparr>m_offset = Some 2, m_length = Some 3, m_message = Some ''Use have'', m_replacements = Some [\<lparr>r_value = Some ''have''\<rparr>]\<rparr>]))) =
      map (\<lambda>m. \<lparr> g_error = substring ''I has a apple'' (toInteger (m_offset m))
                                 (toInteger (addNumbers (m_offset m) (m_length m))),
                   g_suggestion =
                     (case m_replacements m of
                        Some (r # rs) \<Rightarrow>
                          (case r_value r of
                             Some v \<Rightarrow> if v = [] then Dash else Replacement v
                           | None \<Rightarrow> Dash)
                      | _ \<Rightarrow> Dash),
                   g_message = m_message m \<rparr>) [\<lparr>m_offset = Some 2, m_length = Some 3, m_message = Some ''Use have'', m_replacements = Some [\<lparr>r_value = Some ''have''\<rparr>]\<rparr>]"
    by blast
  then have some: "grammarSuggestions (analysisReport ''I has a apple'' (Parsed (Some [\<lparr>m_offset = Some 2, m_length = Some 3, m_message = Some ''Use have'', m_replacements = Some [\<lparr>r_value = Some ''have''\<rparr>]\<rparr>]))) =
      [\<lparr>g_error = ''has'', g_suggestion = Replacement ''have'',
        g_message = Some ''Use have''\<rparr>]"
    using sub by simp
  from thrown none complete some sub show ?thesis by simp
qed

text \<open>
  Against the adapter of the specification, on two bodies for "I has a apple". In the first
  the second match holds no \<open>replacements\<close>, which the specification calls valid and maps to
  the placeholder: the code gives no suggestion at all. The second is malformed, its match
  holds no \<open>message\<close>: the specification gives no suggestion, the code gives one.
\<close>

theorem grammar_adapter_counterexample:
  "specGrammarSuggestions ''I has a apple'' (Parsed (Some [\<lparr>m_offset = Some 2, m_length = Some 3, m_message = Some ''Use have'', m_replacements = Some [\<lparr>r_value = Some ''have''\<rparr>]\<rparr>, \<lparr>m_offset = Some 6, m_length = Some 1, m_message = Some ''Use an'', m_replacements = None\<rparr>])) =
     [\<lparr>g_error = ''has'', g_suggestion = Replacement ''have'',
       g_message = Some ''Use have''\<rparr>,
      \<lparr>g_error = ''a'', g_suggestion = Dash, g_message = Some ''Use an''\<rparr>] \<and>
   grammarSuggestions (analysisReport ''I has a apple'' (Parsed (Some [\<lparr>m_offset = Some 2, m_length = Some 3, m_message = Some ''Use have'', m_replacements = Some [\<lparr>r_value = Some ''have''\<rparr>]\<rparr>, \<lparr>m_offset = Some 6, m_length = Some 1, m_message = Some ''Use an'', m_replacements = None\<rparr>]))) = [] \<and>
   specGrammarSuggestions ''I has a apple'' (Parsed (Some [\<lparr>m_offset = Some 2, m_length = Some 3, m_message = None, m_replacements = Some []\<rparr>])) = [] \<and>
   grammarSuggestions (analysisReport ''I has a apple'' (Parsed (Some [\<lparr>m_offset = Some 2, m_length = Some 3, m_message = None, m_replacements = Some []\<rparr>]))) =
     [\<lparr>g_error = ''has'', g_suggestion = Dash, g_message = None\<rparr>]"
proof -
  have "mapMatches ''I has a apple'' [\<lparr>m_offset = Some 2, m_length = Some 3, m_message = Some ''Use have'', m_replacements = Some [\<lparr>r_value = Some ''have''\<rparr>]\<rparr>, \<lparr>m_offset = Some 6, m_length = Some 1, m_message = Some ''Use an'', m_replacements = None\<rparr>] = None"
    unfolding mapMatches_None by simp
  then have "grammarTry ''I has a apple'' (Parsed (Some [\<lparr>m_offset = Some 2, m_length = Some 3, m_message = Some ''Use have'', m_replacements = Some [\<lparr>r_value = Some ''have''\<rparr>]\<rparr>, \<lparr>m_offset = Some 6, m_length = Some 1, m_message = Some ''Use an'', m_replacements = None\<rparr>])) = None"
    by (simp only: grammarTry_def grammar_response.case option.case)
  then have a: "grammarSuggestions (analysisReport ''I has a apple''
      (Parsed (Some [\<lparr>m_offset = Some 2, m_length = Some 3, m_message = Some ''Use have'', m_replacements = Some [\<lparr>r_value = Some ''have''\<rparr>]\<rparr>, \<lparr>m_offset = Some 6, m_length = Some 1, m_message = Some ''Use an'', m_replacements = None\<rparr>]))) = []"
    by (rule thrown_gives_none)
  have "grammarTry ''I has a apple'' (Parsed (Some [\<lparr>m_offset = Some 2, m_length = Some 3, m_message = None, m_replacements = Some []\<rparr>])) =
      Some [\<lparr>g_error = ''has'', g_suggestion = Dash, g_message = None\<rparr>]"
    by (simp add: grammarTry_def toSuggestion_def firstReplacement_def toInteger_def
        addNumbers_def substring_def Let_def)
  then have b: "grammarSuggestions (analysisReport ''I has a apple''
      (Parsed (Some [\<lparr>m_offset = Some 2, m_length = Some 3, m_message = None, m_replacements = Some []\<rparr>]))) =
      [\<lparr>g_error = ''has'', g_suggestion = Dash, g_message = None\<rparr>]"
    by (rule completed_gives_list)
  have c: "specGrammarSuggestions ''I has a apple'' (Parsed (Some [\<lparr>m_offset = Some 2, m_length = Some 3, m_message = Some ''Use have'', m_replacements = Some [\<lparr>r_value = Some ''have''\<rparr>]\<rparr>, \<lparr>m_offset = Some 6, m_length = Some 1, m_message = Some ''Use an'', m_replacements = None\<rparr>])) =
     [\<lparr>g_error = ''has'', g_suggestion = Replacement ''have'',
       g_message = Some ''Use have''\<rparr>,
      \<lparr>g_error = ''a'', g_suggestion = Dash, g_message = Some ''Use an''\<rparr>]"
    by (simp add: specGrammarSuggestions_def specValidMatch_def specSuggestion_def
        toInteger_def)
  have d: "specGrammarSuggestions ''I has a apple'' (Parsed (Some [\<lparr>m_offset = Some 2, m_length = Some 3, m_message = None, m_replacements = Some []\<rparr>])) = []"
    by (simp add: specGrammarSuggestions_def specValidMatch_def)
  from a b c d show ?thesis by simp
qed


section \<open>The session history\<close>

text \<open>
  Claim C9, as the code has it. In the base flow, stopping a recording puts the new record
  at the front of the session history, before the earlier records, which are unchanged
  (most recent first). In the extended flow, when an analysis resumes after its request and
  the history is still the one it read when it started (other handlers may have changed
  the rest of the state), the new record is put at the end of the history, behind the
  earlier records, which are unchanged (oldest first); so it is for a call during which no
  other handler runs.
\<close>

theorem history_placement:
  "sessionHistory (stopRecording st) =
     \<lparr> s_text = transcript_sp st,
       s_duration = timer st,
       s_feedback = feedback (generateSuggestions (transcript_sp st) (timer st)),
       s_score = score (generateSuggestions (transcript_sp st) (timer st)),
       s_fillerStats = fillerStats (generateSuggestions (transcript_sp st) (timer st)) \<rparr>
     # sessionHistory st \<and>
   (analyzeStart d = Some c \<and> history d' = history d \<longrightarrow>
      history (analyzeResume c response now d') =
        history d' @ [\<lparr> h_text = transcript_pro d,
                         h_feedback = analysisReport (transcript_pro d) response,
                         h_time = now \<rparr>]) \<and>
   (transcript_pro d \<noteq> [] \<longrightarrow>
      history (analyzeTranscript response now d) =
        history d @ [\<lparr> h_text = transcript_pro d,
                        h_feedback = analysisReport (transcript_pro d) response,
                        h_time = now \<rparr>])"
  by (auto simp: stopRecording_def Let_def analyzeTranscript_def analyzeStart_def
      analyzeResume_def split: if_splits)

text \<open>
  An analysis of "second" on a history that holds the record of "first", resumed after the
  recogniser has delivered more text, and the same call with nothing in between; a stopped
  recording of "new" on a session history that holds the record of "old".
\<close>

theorem history_placement_witness:
  "analyzeStart \<lparr>transcript_pro = ''second'', isRecording_pro = False, feedback_pro = None, history = [\<lparr>h_text = ''first'', h_feedback = analysisReport ''first'' JsonRejected, h_time = ''09:00''\<rparr>]\<rparr> = Some \<lparr>c_transcript = ''second'', c_history = [\<lparr>h_text = ''first'', h_feedback = analysisReport ''first'' JsonRejected, h_time = ''09:00''\<rparr>]\<rparr> \<and>
   history \<lparr>transcript_pro = ''second more'', isRecording_pro = False, feedback_pro = None, history = [\<lparr>h_text = ''first'', h_feedback = analysisReport ''first'' JsonRejected, h_time = ''09:00''\<rparr>]\<rparr> = history \<lparr>transcript_pro = ''second'', isRecording_pro = False, feedback_pro = None, history = [\<lparr>h_text = ''first'', h_feedback = analysisReport ''first'' JsonRejected, h_time = ''09:00''\<rparr>]\<rparr> \<and>
   history (analyzeResume \<lparr>c_transcript = ''second'', c_history = [\<lparr>h_text = ''first'', h_feedback = analysisReport ''first'' JsonRejected, h_time = ''09:00''\<rparr>]\<rparr> JsonRejected ''09:05'' \<lparr>transcript_pro = ''second more'', isRecording_pro = False, feedback_pro = None, history = [\<lparr>h_text = ''first'', h_feedback = analysisReport ''first'' JsonRejected, h_time = ''09:00''\<rparr>]\<rparr>) =
     [\<lparr>h_text = ''first'', h_feedback = analysisReport ''first'' JsonRejected, h_time = ''09:00''\<rparr>,
      \<lparr>h_text = ''second'', h_feedback = analysisReport ''second'' JsonRejected,
       h_time = ''09:05''\<rparr>] \<and>
   transcript_pro \<lparr>transcript_pro = ''second'', isRecording_pro = False, feedback_pro = None, history = [\<lparr>h_text = ''first'', h_feedback = analysisReport ''first'' JsonRejected, h_time = ''09:00''\<rparr>]\<rparr> \<noteq> [] \<and>
   history (analyzeTranscript JsonRejected ''09:05'' \<lparr>transcript_pro = ''second'', isRecording_pro = False, feedback_pro = None, history = [\<lparr>h_text = ''first'', h_feedback = analysisReport ''first'' JsonRejected, h_time = ''09:00''\<rparr>]\<rparr>) =
     [\<lparr>h_text = ''first'', h_feedback = analysisReport ''first'' JsonRejected, h_time = ''09:00''\<rparr>,
      \<lparr>h_text = ''second'', h_feedback = analysisReport ''second'' JsonRejected,
       h_time = ''09:05''\<rparr>] \<and>
   map s_text (sessionHistory (stopRecording \<lparr>isRecording = True, transcript_sp = ''new'', sessionHistory = [\<lparr>s_text = ''old'', s_duration = 40, s_feedback = [GreatJobMsg], s_score = 10, s_fillerStats = Map.empty\<rparr>], suggestions = [GreatJobMsg], timer = 5\<rparr>)) = [''new'', ''old'']"
proof -
  note placement = history_placement [where st = "\<lparr>isRecording = True, transcript_sp = ''new'', sessionHistory = [\<lparr>s_text = ''old'', s_duration = 40, s_feedback = [GreatJobMsg], s_score = 10, s_fillerStats = Map.empty\<rparr>], suggestions = [GreatJobMsg], timer = 5\<rparr>" and d = "\<lparr>transcript_pro = ''second'', isRecording_pro = False, feedback_pro = None, history = [\<lparr>h_text = ''first'', h_feedback = analysisReport ''first'' JsonRejected, h_time = ''09:00''\<rparr>]\<rparr>" and c = "\<lparr>c_transcript = ''second'', c_history = [\<lparr>h_text = ''first'', h_feedback = analysisReport ''first'' JsonRejected, h_time = ''09:00''\<rparr>]\<rparr>"
      and d' = "\<lparr>transcript_pro = ''second more'', isRecording_pro = False, feedback_pro = None, history = [\<lparr>h_text = ''first'', h_feedback = analysisReport ''first'' JsonRejected, h_time = ''09:00''\<rparr>]\<rparr>" and response = JsonRejected and now = "''09:05''"]
  have start: "analyzeStart \<lparr>transcript_pro = ''second'', isRecording_pro = False, feedback_pro = None, history = [\<lparr>h_text = ''first'', h_feedback = analysisReport ''first'' JsonRejected, h_time = ''09:00''\<rparr>]\<rparr> = Some \<lparr>c_transcript = ''second'', c_history = [\<lparr>h_text = ''first'', h_feedback = analysisReport ''first'' JsonRejected, h_time = ''09:00''\<rparr>]\<rparr>" by (simp add: analyzeStart_def)
  have same: "history \<lparr>transcript_pro = ''second more'', isRecording_pro = False, feedback_pro = None, history = [\<lparr>h_text = ''first'', h_feedback = analysisReport ''first'' JsonRejected, h_time = ''09:00''\<rparr>]\<rparr> = history \<lparr>transcript_pro = ''second'', isRecording_pro = False, feedback_pro = None, history = [\<lparr>h_text = ''first'', h_feedback = analysisReport ''first'' JsonRejected, h_time = ''09:00''\<rparr>]\<rparr>" by simp
  have full: "transcript_pro \<lparr>transcript_pro = ''second'', isRecording_pro = False, feedback_pro = None, history = [\<lparr>h_text = ''first'', h_feedback = analysisReport ''first'' JsonRejected, h_time = ''09:00''\<rparr>]\<rparr> \<noteq> []" by simp
  from placement start same
  have a: "history (analyzeResume \<lparr>c_transcript = ''second'', c_history = [\<lparr>h_text = ''first'', h_feedback = analysisReport ''first'' JsonRejected, h_time = ''09:00''\<rparr>]\<rparr> JsonRejected ''09:05'' \<lparr>transcript_pro = ''second more'', isRecording_pro = False, feedback_pro = None, history = [\<lparr>h_text = ''first'', h_feedback = analysisReport ''first'' JsonRejected, h_time = ''09:00''\<rparr>]\<rparr>) =
     [\<lparr>h_text = ''first'', h_feedback = analysisReport ''first'' JsonRejected, h_time = ''09:00''\<rparr>,
      \<lparr>h_text = ''second'', h_feedback = analysisReport ''second'' JsonRejected,
       h_time = ''09:05''\<rparr>]"
    by simp
  from placement full
  have b: "history (analyzeTranscript JsonRejected ''09:05'' \<lparr>transcript_pro = ''second'', isRecording_pro = False, feedback_pro = None, history = [\<lparr>h_text = ''first'', h_feedback = analysisReport ''first'' JsonRejected, h_time = ''09:00''\<rparr>]\<rparr>) =
     [\<lparr>h_text = ''first'', h_feedback = analysisReport ''first'' JsonRejected, h_time = ''09:00''\<rparr>,
      \<lparr>h_text = ''second'', h_feedback = analysisReport ''second'' JsonRejected,
       h_time = ''09:05''\<rparr>]"
    by simp
  from placement
  have c: "map s_text (sessionHistory (stopRecording \<lparr>isRecording = True, transcript_sp = ''new'', sessionHistory = [\<lparr>s_text = ''old'', s_duration = 40, s_feedback = [GreatJobMsg], s_score = 10, s_fillerStats = Map.empty\<rparr>], suggestions = [GreatJobMsg], timer = 5\<rparr>)) = [''new'', ''old'']"
    by simp
  from start same full a b c show ?thesis by simp
qed

text \<open>
  Two analyses in the extended flow, of the transcripts "first" and then "second": the
  record of the later one is the last of the history, not the first.
\<close>

theorem history_placement_counterexample:
  "map h_text
     (history (analyzeTranscript JsonRejected ''09:05''
        ((analyzeTranscript JsonRejected ''09:00'' \<lparr>transcript_pro = ''first'', isRecording_pro = False, feedback_pro = None, history = []\<rparr>)\<lparr>transcript_pro := ''second''\<rparr>))) =
   [''first'', ''second'']"
  by (simp add: analyzeTranscript_def analyzeStart_def analyzeResume_def Let_def)

text \<open>
  The extended flow writes the history that the analysis read when it started. When a second
  analysis starts before the first has resumed, both extend the same history, and the one
  that resumes last drops the record of the other.
\<close>

lemma overlapping_analyses:
  assumes "analyzeStart st = Some c"
  shows "history (analyzeResume c r2 t2 (analyzeResume c r1 t1 st)) =
     history st @ [\<lparr> h_text = transcript_pro st,
                      h_feedback = analysisReport (transcript_pro st) r2,
                      h_time = t2 \<rparr>]"
  using assms by (auto simp: analyzeStart_def analyzeResume_def Let_def split: if_splits)


section \<open>The transcript after an analysis\<close>

text \<open>
  Claim C10. \<open>analyzeTranscript\<close> on an empty transcript leaves the whole state as it is. On
  a transcript that is not empty, once the analysis has completed, the transcript is the
  empty string, the feedback is the new report, the history has the new entry, and the
  recording flag is as before. So the transcript is empty after every call, also when
  other handlers have changed the state while the request was pending.
\<close>

theorem analyze_frame:
  "(transcript_pro st = [] \<longrightarrow> analyzeTranscript response now st = st) \<and>
   (transcript_pro st \<noteq> [] \<longrightarrow>
      transcript_pro (analyzeTranscript response now st) = [] \<and>
      feedback_pro (analyzeTranscript response now st) =
        Some (analysisReport (transcript_pro st) response) \<and>
      history (analyzeTranscript response now st) =
        history st @ [\<lparr> h_text = transcript_pro st,
                         h_feedback = analysisReport (transcript_pro st) response,
                         h_time = now \<rparr>] \<and>
      isRecording_pro (analyzeTranscript response now st) = isRecording_pro st) \<and>
   transcript_pro (analyzeTranscript response now st) = [] \<and>
   transcript_pro (analyzeResume c response now st') = []"
  by (simp add: analyzeTranscript_def analyzeStart_def analyzeResume_def Let_def)

text \<open>A call on an empty transcript and a call on the transcript "first".\<close>

theorem analyze_frame_witness:
  "transcript_pro \<lparr>transcript_pro = [], isRecording_pro = True, feedback_pro = None, history = []\<rparr> = [] \<and>
   analyzeTranscript JsonRejected ''09:00'' \<lparr>transcript_pro = [], isRecording_pro = True, feedback_pro = None, history = []\<rparr> = \<lparr>transcript_pro = [], isRecording_pro = True, feedback_pro = None, history = []\<rparr> \<and>
   transcript_pro \<lparr>transcript_pro = ''first'', isRecording_pro = False, feedback_pro = None, history = []\<rparr> \<noteq> [] \<and>
   transcript_pro (analyzeTranscript JsonRejected ''09:00'' \<lparr>transcript_pro = ''first'', isRecording_pro = False, feedback_pro = None, history = []\<rparr>) = [] \<and>
   feedback_pro (analyzeTranscript JsonRejected ''09:00'' \<lparr>transcript_pro = ''first'', isRecording_pro = False, feedback_pro = None, history = []\<rparr>) =
     Some (analysisReport ''first'' JsonRejected) \<and>
   map h_text (history (analyzeTranscript JsonRejected ''09:00'' \<lparr>transcript_pro = ''first'', isRecording_pro = False, feedback_pro = None, history = []\<rparr>)) = [''first'']"
proof -
  note empty = analyze_frame [where st = "\<lparr>transcript_pro = [], isRecording_pro = True, feedback_pro = None, history = []\<rparr>" and response = JsonRejected and now = "''09:00''"]
  note full = analyze_frame [where st = "\<lparr>transcript_pro = ''first'', isRecording_pro = False, feedback_pro = None, history = []\<rparr>" and response = JsonRejected and now = "''09:00''"]
  have "analyzeTranscript JsonRejected ''09:00'' \<lparr>transcript_pro = [], isRecording_pro = True, feedback_pro = None, history = []\<rparr> = \<lparr>transcript_pro = [], isRecording_pro = True, feedback_pro = None, history = []\<rparr>"
    using empty by simp
  moreover have "transcript_pro (analyzeTranscript JsonRejected ''09:00'' \<lparr>transcript_pro = ''first'', isRecording_pro = False, feedback_pro = None, history = []\<rparr>) = [] \<and>
      feedback_pro (analyzeTranscript JsonRejected ''09:00'' \<lparr>transcript_pro = ''first'', isRecording_pro = False, feedback_pro = None, history = []\<rparr>) =
        Some (analysisReport ''first'' JsonRejected) \<and>
      map h_text (history (analyzeTranscript JsonRejected ''09:00'' \<lparr>transcript_pro = ''first'', isRecording_pro = False, feedback_pro = None, history = []\<rparr>)) = [''first'']"
    using full by simp
  ultimately show ?thesis by simp
qed

end
